theory Spec2Isabelle
  imports Main "HOL-Library.Word"
begin

unbundle bit_operations_syntax

section \<open>AR488 GPIB interface: pin layouts\<close>

text \<open>
  The firmware bridges a host serial link and the IEEE-488 bus.  This first part embeds
  the data-bus primitives of the layout module: the register version selected by
  \<^verbatim>\<open>AR488_MEGA32U4_MICRO\<close> and the \<^verbatim>\<open>digitalRead\<close>/\<^verbatim>\<open>digitalWrite\<close>
  version under \<^verbatim>\<open>AR488_CUSTOM\<close>.  All \<^verbatim>\<open>uint8_t\<close> values are 8-bit words.
\<close>

type_synonym u8 = "8 word"

datatype level = LOW | HIGH

datatype pinmode = INPUT_PULLUP | OUTPUT

subsection \<open>ATmega32U4 registers\<close>

text \<open>
  The data lines sit on PORTD bits 7 and 0 and on PORTB bits 6 to 1.  \<open>PINx\<close> is the input
  register, \<open>PORTx\<close> the output latch and \<open>DDRx\<close> the direction register of a port.
\<close>

record avr =
  DDRB :: u8
  DDRD :: u8
  PORTB :: u8
  PORTD :: u8
  PINB :: u8
  PIND :: u8

definition readyGpibDbus_avr :: "avr \<Rightarrow> avr" where
  "readyGpibDbus_avr r =
     r\<lparr>DDRB := DDRB r AND 0x81, DDRD := DDRD r AND 0x7E,
       PORTB := PORTB r OR 0x7E, PORTD := PORTD r OR 0x81\<rparr>"

definition readGpibDbus :: "avr \<Rightarrow> u8" where
  "readGpibDbus r = NOT ((PIND r AND 0x81) OR (PINB r AND 0x7E))"

definition setGpibDbus :: "u8 \<Rightarrow> avr \<Rightarrow> avr" where
  "setGpibDbus db r =
     (let r1 = r\<lparr>DDRB := DDRB r OR 0x7E, DDRD := DDRD r OR 0x81\<rparr>;
          db' = NOT db
      in r1\<lparr>PORTB := (PORTB r1 AND NOT 0x7E) OR (db' AND 0x7E),
             PORTD := (PORTD r1 AND NOT 0x81) OR (db' AND 0x81)\<rparr>)"

text \<open>Loopback: every pin keeps the level its output latch drives.\<close>

definition loopback :: "avr \<Rightarrow> avr" where
  "loopback r = r\<lparr>PINB := PORTB r, PIND := PORTD r\<rparr>"

subsection \<open>Generic layout\<close>

text \<open>
  A board is the mode and level of every Arduino pin; \<open>databus\<close> is the array
  \<^verbatim>\<open>{ DIO1, ..., DIO8 }\<close> of pin numbers.  Reading back a pin gives the level written
  to it, which is the loopback of this layout.
\<close>

record board =
  pin_mode :: "nat \<Rightarrow> pinmode"
  pin_level :: "nat \<Rightarrow> level"

definition pinMode :: "nat \<Rightarrow> pinmode \<Rightarrow> board \<Rightarrow> board" where
  "pinMode pin m b = b\<lparr>pin_mode := (pin_mode b)(pin := m)\<rparr>"

definition digitalWrite :: "nat \<Rightarrow> level \<Rightarrow> board \<Rightarrow> board" where
  "digitalWrite pin v b = b\<lparr>pin_level := (pin_level b)(pin := v)\<rparr>"

definition digitalRead :: "nat \<Rightarrow> board \<Rightarrow> level" where
  "digitalRead pin b = pin_level b pin"

definition readGpibDbus_custom :: "nat list \<Rightarrow> board \<Rightarrow> u8" where
  "readGpibDbus_custom databus b =
     fold (\<lambda>i db. db + (if digitalRead (databus ! i) b = HIGH then 0 else push_bit i 1))
       [0..<8] 0"

definition setGpibDbus_custom :: "nat list \<Rightarrow> u8 \<Rightarrow> board \<Rightarrow> board" where
  "setGpibDbus_custom databus db b =
     fold (\<lambda>i b. digitalWrite (databus ! i)
                    (if db AND push_bit i 1 \<noteq> 0 then LOW else HIGH)
                    (pinMode (databus ! i) OUTPUT b))
       [0..<8] b"

section \<open>The bus engine\<close>

subsection \<open>Constants of the engine's header\<close>

text \<open>
  Modelled from the spec: the header \<^verbatim>\<open>AR488_GPIBbus.h\<close>, which declares the command
  bytes \<^verbatim>\<open>GC_*\<close>, the bus-role states, \<^verbatim>\<open>NO_EOI\<close>, \<^verbatim>\<open>LISTEN\<close>, \<^verbatim>\<open>TALK\<close> and the
  configuration structure, is not among the sources.  The command bytes are those of the
  table of multiline commands (they agree with the \<^verbatim>\<open>#define\<close>s of the sketch
  \<^verbatim>\<open>AR488.ino\<close>); the states are the nine bus-role states, with \<open>NOSTATE\<close> for the value
  0 that the constructor and \<^verbatim>\<open>stop()\<close> store; \<open>NO_EOI\<close> is the value passed for
  \<^verbatim>\<open>isLastByte\<close>, \<open>LISTEN\<close> and \<open>TALK\<close> the values passed for \<^verbatim>\<open>bool talk\<close>.
\<close>

definition GC_LLO :: u8 where "GC_LLO = 0x11"
definition GC_UNL :: u8 where "GC_UNL = 0x3F"
definition GC_TAD :: u8 where "GC_TAD = 0x40"
definition GC_UNT :: u8 where "GC_UNT = 0x5F"
definition GC_LAD :: u8 where "GC_LAD = 0x20"
definition GC_GTL :: u8 where "GC_GTL = 0x01"
definition GC_SDC :: u8 where "GC_SDC = 0x04"

datatype cstate = NOSTATE | CINI | CIDS | CCMS | CTAS | CLAS | DINI | DIDS | DLAS | DTAS

abbreviation (input) NO_EOI :: bool where "NO_EOI \<equiv> False"
abbreviation (input) LISTEN :: bool where "LISTEN \<equiv> False"
abbreviation (input) TALK :: bool where "TALK \<equiv> True"

text \<open>\<^verbatim>\<open>#define OK false\<close>, \<^verbatim>\<open>#define ERR true\<close>, and the control characters.\<close>

abbreviation (input) OK :: bool where "OK \<equiv> False"
abbreviation (input) ERR :: bool where "ERR \<equiv> True"

definition ESC :: u8 where "ESC = 0x1B"
definition CR :: u8 where "CR = 0xD"
definition LF :: u8 where "LF = 0xA"
definition PLUS :: u8 where "PLUS = 0x2B"

text \<open>
  Modelled from the spec: the fields of the configuration structure that the embedded
  functions read or write, with the defaults of \<^verbatim>\<open>setDefaultCfg\<close>.
\<close>

record cfgrec =
  eot_en :: bool
  eoi :: bool
  cmode :: u8
  caddr :: u8
  paddr :: u8
  eos :: u8
  stat :: u8
  amode :: u8
  rtmo :: nat
  eot_ch :: u8
  eor :: u8
  idn :: u8

definition defaultCfg :: cfgrec where
  "defaultCfg = \<lparr>eot_en = False, eoi = False, cmode = 2, caddr = 0, paddr = 1, eos = 0,
     stat = 0, amode = 0, rtmo = 1200, eot_ch = 0, eor = 0, idn = 0\<rparr>"

subsection \<open>Engine state and bus environment\<close>

text \<open>
  What the other devices do on the bus is an input of the model.  One \<open>pins\<close> value is
  what the control and data lines show during one pass of a handshake loop (\<open>p_dio\<close> is
  the byte \<^verbatim>\<open>readGpibDbus()\<close> returns then).  A handshake call consumes one list of
  such snapshots, one per pass that fits into the timeout; \<open>wr_in\<close> and \<open>rd_in\<close> hold
  these lists for the successive calls of \<^verbatim>\<open>writeByte\<close> and \<^verbatim>\<open>readByte\<close>, and
  \<open>atn_in\<close> the successive samples of \<^verbatim>\<open>isAsserted(ATN)\<close>.  When a list is used up the
  bus is silent: all lines high.

  The control lines this node drives are kept as the two control words of
  \<^verbatim>\<open>setGpibState\<close> (bit 7 ATN, 6 SRQ, 5 REN, 4 EOI, 3 DAV, 2 NRFD, 1 NDAC, 0 IFC):
  direction (1 = output) and level (1 = high).  \<open>wire\<close> records, in order, every byte put
  on the data lines with DAV asserted, every byte taken from them, and the separate EOI
  pulse of \<^verbatim>\<open>sendData\<close>; \<open>host_out\<close> is what has been printed to the host link.
\<close>

record pins =
  p_ifc :: level
  p_atn :: level
  p_eoi :: level
  p_dav :: level
  p_nrfd :: level
  p_ndac :: level
  p_dio :: u8

datatype wire_ev =
    Wr cstate u8 bool
  | Rd cstate u8 bool
  | EoiPulse

record gpib =
  cfg :: cfgrec
  cstate :: cstate
  deviceAddressed :: bool
  txBreak :: bool
  ctrl_dir :: u8
  ctrl_lvl :: u8
  dbus :: "u8 option"
  wire :: "wire_ev list"
  atn_in :: "level list"
  wr_in :: "pins list list"
  rd_in :: "pins list list"
  host_out :: "u8 list"

definition silent :: pins where
  "silent = \<lparr>p_ifc = HIGH, p_atn = HIGH, p_eoi = HIGH, p_dav = HIGH, p_nrfd = HIGH,
     p_ndac = HIGH, p_dio = 0\<rparr>"

definition next_wr :: "gpib \<Rightarrow> pins list \<times> gpib" where
  "next_wr s = (case wr_in s of [] \<Rightarrow> ([silent], s) | ps # rest \<Rightarrow> (ps, s\<lparr>wr_in := rest\<rparr>))"

definition next_rd :: "gpib \<Rightarrow> pins list \<times> gpib" where
  "next_rd s = (case rd_in s of [] \<Rightarrow> ([silent], s) | ps # rest \<Rightarrow> (ps, s\<lparr>rd_in := rest\<rparr>))"

definition isAssertedATN :: "gpib \<Rightarrow> bool \<times> gpib" where
  "isAssertedATN s =
     (case atn_in s of [] \<Rightarrow> (False, s) | l # rest \<Rightarrow> (l = LOW, s\<lparr>atn_in := rest\<rparr>))"

definition print :: "u8 list \<Rightarrow> gpib \<Rightarrow> gpib" where
  "print bs s = s\<lparr>host_out := host_out s @ bs\<rparr>"

subsection \<open>Control lines and bus-role states\<close>

definition setGpibState :: "u8 \<Rightarrow> u8 \<Rightarrow> u8 \<Rightarrow> gpib \<Rightarrow> gpib" where
  "setGpibState bits msk mode s =
     (if mode = 0 then s\<lparr>ctrl_lvl := (ctrl_lvl s AND NOT msk) OR (bits AND msk)\<rparr>
      else if mode = 1 then s\<lparr>ctrl_dir := (ctrl_dir s AND NOT msk) OR (bits AND msk)\<rparr>
      else s)"

definition readyGpibDbus :: "gpib \<Rightarrow> gpib" where
  "readyGpibDbus s = s\<lparr>dbus := None\<rparr>"

definition setDataVal :: "u8 \<Rightarrow> gpib \<Rightarrow> gpib" where
  "setDataVal db s = s\<lparr>dbus := Some db\<rparr>"

fun setControls_lines :: "cstate \<Rightarrow> gpib \<Rightarrow> gpib" where
  "setControls_lines CINI s = setGpibState 0xDF 0xFF 0 (setGpibState 0xB8 0xFF 1 s)"
| "setControls_lines CIDS s = setGpibState 0xDF 0x9E 0 (setGpibState 0xB8 0x9E 1 s)"
| "setControls_lines CCMS s = setGpibState 0x5F 0x9F 0 (setGpibState 0xB9 0x9F 1 s)"
| "setControls_lines CLAS s = setGpibState 0xD8 0x9E 0 (setGpibState 0xA6 0x9E 1 s)"
| "setControls_lines CTAS s = setGpibState 0xDF 0x9E 0 (setGpibState 0xB9 0x9E 1 s)"
| "setControls_lines DINI s =
     readyGpibDbus (setGpibState 0xFF 0xFF 0 (setGpibState 0x00 0xFF 1 s))"
| "setControls_lines DIDS s =
     readyGpibDbus (setGpibState 0xFF 0x0E 0 (setGpibState 0x00 0x0E 1 s))"
| "setControls_lines DLAS s = setGpibState 0xF9 0x1E 0 (setGpibState 0x06 0x1E 1 s)"
| "setControls_lines DTAS s = setGpibState 0xF9 0x1E 0 (setGpibState 0x18 0x1E 1 s)"
| "setControls_lines NOSTATE s = setGpibState 0x06 0xB9 0xFF s"

definition setControls :: "cstate \<Rightarrow> gpib \<Rightarrow> gpib" where
  "setControls state s = (setControls_lines state s)\<lparr>cstate := state\<rparr>"

definition setSrqSig :: "gpib \<Rightarrow> gpib" where
  "setSrqSig s = setGpibState 0x00 0x40 0 (setGpibState 0x40 0x40 1 s)"

definition clrSrqSig :: "gpib \<Rightarrow> gpib" where
  "clrSrqSig s = setGpibState 0x40 0x40 0 (setGpibState 0x00 0x40 1 s)"

text \<open>A control line is asserted by this node when it is an output driven low.\<close>

definition drives_low :: "gpib \<Rightarrow> nat \<Rightarrow> bool" where
  "drives_low s i = (bit (ctrl_dir s) i \<and> \<not> bit (ctrl_lvl s) i)"

subsection \<open>Byte handshakes\<close>

text \<open>
  \<open>writeByte_loop\<close> is the \<^verbatim>\<open>while\<close> loop of \<^verbatim>\<open>writeByte\<close>, one pass per snapshot
  (\<open>writeByte_pass\<close> is the loop body; its first result tells whether the body left the
  loop by \<^verbatim>\<open>break\<close>); running out of snapshots is the timeout.  \<open>put_byte\<close> is its stage 6: the byte goes on
  the data lines and DAV (with EOI for a last byte when \<open>eoi\<close> is configured) is asserted.
\<close>

definition put_byte :: "u8 \<Rightarrow> bool \<Rightarrow> gpib \<Rightarrow> gpib" where
  "put_byte db isLastByte s =
     (let s1 = setDataVal db s;
          s2 = (if eoi (cfg s1) \<and> isLastByte then setGpibState 0x00 0x18 0 s1
                else setGpibState 0x00 0x08 0 s1)
      in s2\<lparr>wire := wire s2 @ [Wr (cstate s2) db (drives_low s2 4)]\<rparr>)"

definition writeByte_pass :: "pins \<Rightarrow> u8 \<Rightarrow> bool \<Rightarrow> u8 \<Rightarrow> gpib \<Rightarrow> bool \<times> u8 \<times> gpib" where
  "writeByte_pass p db isLastByte stage s =
     (if cmode (cfg s) = 1 \<and> p_ifc p = LOW then (True, 1, setControls DLAS s)
      else if cmode (cfg s) = 1 \<and> p_atn p = LOW then (True, 2, setControls DLAS s)
      else
        let stage4 = (if stage = 4 \<and> p_ndac p = LOW then 5 else stage);
            stage5 = (if stage4 = 5 \<and> p_nrfd p = HIGH then 6 else stage4);
            s6 = (if stage5 = 6 then put_byte db isLastByte s else s);
            stage6 = (if stage5 = 6 then 7 else stage5);
            stage7 = (if stage6 = 7 \<and> p_nrfd p = LOW then 8 else stage6)
        in if stage7 = 8 \<and> p_ndac p = HIGH then (True, 9, s6) else (False, stage7, s6))"

fun writeByte_loop :: "pins list \<Rightarrow> u8 \<Rightarrow> bool \<Rightarrow> u8 \<Rightarrow> gpib \<Rightarrow> u8 \<times> gpib" where
  "writeByte_loop [] db isLastByte stage s = (stage, s)"
| "writeByte_loop (p # ps) db isLastByte stage s =
     (case writeByte_pass p db isLastByte stage s of
        (True, stage', s') \<Rightarrow> (stage', s')
      | (False, stage', s') \<Rightarrow> writeByte_loop ps db isLastByte stage' s')"

definition writeByte :: "u8 \<Rightarrow> bool \<Rightarrow> gpib \<Rightarrow> u8 \<times> gpib" where
  "writeByte db isLastByte s =
     (let (snaps, s0) = next_wr s;
          (stage, s1) = (if 1 < rtmo (cfg s0) then writeByte_loop snaps db isLastByte 4 s0
                         else (4, s0))
      in if stage = 9
         then (0, setDataVal 0
                    (if eoi (cfg s1) \<and> isLastByte then setGpibState 0x18 0x18 0 s1
                     else setGpibState 0x08 0x08 0 s1))
         else (stage, s1))"

text \<open>
  \<open>readByte_loop\<close> is the loop of \<^verbatim>\<open>readByte\<close>.  The out-parameters \<^verbatim>\<open>*db\<close> and \<^verbatim>\<open>*eoi\<close>
  are threaded as a pair; \<^verbatim>\<open>*db\<close> keeps its old value unless stage 7 is reached.
\<close>

definition readByte_pass ::
  "pins \<Rightarrow> bool \<Rightarrow> bool \<Rightarrow> u8 \<Rightarrow> u8 \<times> bool \<Rightarrow> gpib \<Rightarrow> bool \<times> u8 \<times> (u8 \<times> bool) \<times> gpib" where
  "readByte_pass p atnStat readWithEoi stage dbe s =
     (if cmode (cfg s) = 1 \<and> p_ifc p = LOW then (True, 1, dbe, s)
      else if cmode (cfg s) = 1 \<and> atnStat \<and> p_atn p \<noteq> LOW then (True, 2, dbe, s)
      else
        let s4 = (if stage = 4 then setGpibState 0x04 0x04 0 s else s);
            stage4 = (if stage = 4 then 6 else stage);
            s6 = (if stage4 = 6 \<and> p_dav p = LOW then setGpibState 0x00 0x04 0 s4 else s4);
            stage6 = (if stage4 = 6 \<and> p_dav p = LOW then 7 else stage4);
            e7 = (if stage6 = 7 \<and> readWithEoi \<and> p_eoi p = LOW then True else snd dbe);
            db7 = (if stage6 = 7 then p_dio p else fst dbe);
            s7 = (if stage6 = 7
                  then (setGpibState 0x02 0x02 0 s6)\<lparr>wire := wire s6 @ [Rd (cstate s6) db7 e7]\<rparr>
                  else s6);
            stage7 = (if stage6 = 7 then 8 else stage6)
        in if stage7 = 8 \<and> p_dav p = HIGH
           then (True, 9, (db7, e7), setGpibState 0x00 0x02 0 s7)
           else (False, stage7, (db7, e7), s7))"

fun readByte_loop ::
  "pins list \<Rightarrow> bool \<Rightarrow> bool \<Rightarrow> u8 \<Rightarrow> u8 \<times> bool \<Rightarrow> gpib \<Rightarrow> u8 \<times> (u8 \<times> bool) \<times> gpib" where
  "readByte_loop [] atnStat readWithEoi stage dbe s = (stage, dbe, s)"
| "readByte_loop (p # ps) atnStat readWithEoi stage dbe s =
     (case readByte_pass p atnStat readWithEoi stage dbe s of
        (True, stage', dbe', s') \<Rightarrow> (stage', dbe', s')
      | (False, stage', dbe', s') \<Rightarrow> readByte_loop ps atnStat readWithEoi stage' dbe' s')"

definition readByte :: "u8 \<Rightarrow> bool \<Rightarrow> gpib \<Rightarrow> u8 \<times> u8 \<times> bool \<times> gpib" where
  "readByte db readWithEoi s =
     (let (atnStat, s0) = isAssertedATN s;
          (snaps, s1) = next_rd s0;
          (stage, (db', e), s2) =
             (if 1 < rtmo (cfg s1) then readByte_loop snaps atnStat readWithEoi 4 (db, False) s1
              else (4, (db, False), s1))
      in (if stage = 9 then 0 else stage, db', e, s2))"

subsection \<open>Commands, addressing, status\<close>

definition sendCmd :: "u8 \<Rightarrow> gpib \<Rightarrow> bool \<times> gpib" where
  "sendCmd cmdByte s =
     (let s1 = (if cstate s \<noteq> CCMS then setControls CCMS s else s);
          (st, s2) = writeByte cmdByte NO_EOI s1
      in (if st \<noteq> 0 then ERR else OK, s2))"

definition unAddressDevice :: "gpib \<Rightarrow> bool \<times> gpib" where
  "unAddressDevice s =
     (case sendCmd GC_UNL s of
        (True, s1) \<Rightarrow> (ERR, s1)
      | (False, s1) \<Rightarrow>
          (case sendCmd GC_UNT s1 of
             (True, s2) \<Rightarrow> (ERR, s2)
           | (False, s2) \<Rightarrow> (OK, s2\<lparr>deviceAddressed := False\<rparr>)))"

definition addressDevice :: "u8 \<Rightarrow> bool \<Rightarrow> gpib \<Rightarrow> bool \<times> gpib" where
  "addressDevice addr talk s =
     (case sendCmd GC_UNL s of
        (True, s1) \<Rightarrow> (ERR, s1)
      | (False, s1) \<Rightarrow>
          (case (if talk then sendCmd (GC_TAD + addr) s1 else sendCmd (GC_LAD + addr) s1) of
             (True, s2) \<Rightarrow> (ERR, s2)
           | (False, s2) \<Rightarrow> (OK, s2\<lparr>deviceAddressed := True\<rparr>)))"

definition haveAddressedDevice :: "gpib \<Rightarrow> bool" where
  "haveAddressedDevice s = deviceAddressed s"



definition sendStatus :: "gpib \<Rightarrow> gpib" where
  "sendStatus s =
     (let s1 = (if \<not> (cstate s = DTAS) then setControls DTAS s else s);
          (r, s2) = writeByte (stat (cfg s1)) NO_EOI s1;
          s3 = setControls DIDS s2;
          s4 = s3\<lparr>cfg := (cfg s3)\<lparr>stat := stat (cfg s3) AND NOT 0x40\<rparr>\<rparr>
      in clrSrqSig s4)"

definition setStatus :: "u8 \<Rightarrow> gpib \<Rightarrow> gpib" where
  "setStatus statusByte s =
     (let s1 = s\<lparr>cfg := (cfg s)\<lparr>stat := statusByte\<rparr>\<rparr>
      in if statusByte AND 0x40 \<noteq> 0 then setSrqSig s1 else clrSrqSig s1)"

text \<open>The handler of a serial poll enable in device role (\<^verbatim>\<open>device_spe_h\<close>).\<close>

definition device_spe_h :: "gpib \<Rightarrow> gpib" where
  "device_spe_h s =
     (let s1 = sendStatus s
      in if stat (cfg s1) AND 0x40 \<noteq> 0 then setStatus (stat (cfg s1) AND NOT 0x40) s1 else s1)"

subsection \<open>Receiving and sending data\<close>

definition isTerminatorDetected :: "u8 \<times> u8 \<times> u8 \<Rightarrow> u8 \<Rightarrow> bool" where
  "isTerminatorDetected bytes eorSequence =
     (case bytes of (b0, b1, b2) \<Rightarrow>
        if eorSequence = 0 then b0 = LF \<and> b1 = CR
        else if eorSequence = 1 then b0 = CR
        else if eorSequence = 2 then b0 = LF
        else if eorSequence = 3 then False
        else if eorSequence = 4 then b0 = CR \<and> b1 = LF
        else if eorSequence = 5 then b0 = 0x03
        else if eorSequence = 6 then b0 = 0x03 \<and> b1 = LF \<and> b2 = CR
        else b0 = LF \<and> b1 = CR)"

text \<open>
  \<open>receive_pass\<close> is the body of the \<^verbatim>\<open>while (r == 0)\<close> loop of \<^verbatim>\<open>receiveData\<close>; its first
  result is \<open>True\<close> when the loop goes round again and \<open>False\<close> when the body ends in a
  \<^verbatim>\<open>break\<close>.  \<open>bytes\<close> is the array \<^verbatim>\<open>bytes[3]\<close>, and \<open>eor'\<close> the local \<^verbatim>\<open>eor\<close>.  The test
  of the end byte compares \<^verbatim>\<open>r\<close>, as the source does.  The counter \<^verbatim>\<open>x\<close>, which is only
  incremented, is left out.
\<close>

definition receive_pass ::
  "bool \<Rightarrow> bool \<Rightarrow> u8 \<Rightarrow> u8 \<Rightarrow> u8 \<times> u8 \<times> u8 \<Rightarrow> bool \<Rightarrow> gpib
     \<Rightarrow> bool \<times> u8 \<times> (u8 \<times> u8 \<times> u8) \<times> bool \<times> gpib" where
  "receive_pass readWithEoi detectEndByte endByte eor' bytes eoiDetected s =
     (if txBreak s then (False, 0, bytes, eoiDetected, s)
      else
        let (a1, s1) = isAssertedATN s
        in if a1 then (False, 0, bytes, eoiDetected, s1)
           else
             let (r0, b0, e, s2) = readByte (fst bytes) readWithEoi s1;
                 bytes0 = (b0, snd bytes);
                 (a2, s3) = isAssertedATN s2;
                 r = (if a2 then 2 else r0)
             in if r = 1 \<or> r = 2 then (False, r, bytes0, e, s3)
                else if r = 0 then
                  (let s4 = print [b0] s3
                   in if (if readWithEoi then e
                          else if detectEndByte then r = endByte
                          else isTerminatorDetected bytes0 eor')
                      then (False, r, bytes0, e, s4)
                      else (True, r, (b0, b0, fst (snd bytes)), e, s4))
                else (False, r, bytes0, e, s3))"

function receive_loop ::
  "bool \<Rightarrow> bool \<Rightarrow> u8 \<Rightarrow> u8 \<Rightarrow> u8 \<times> u8 \<times> u8 \<Rightarrow> bool \<Rightarrow> gpib \<Rightarrow> u8 \<times> bool \<times> gpib" where
  "receive_loop readWithEoi detectEndByte endByte eor' bytes eoiDetected s =
     (case receive_pass readWithEoi detectEndByte endByte eor' bytes eoiDetected s of
        (True, r, bytes', e, s') \<Rightarrow> receive_loop readWithEoi detectEndByte endByte eor' bytes' e s'
      | (False, r, bytes', e, s') \<Rightarrow> (r, e, s'))"
  by pat_completeness auto

definition receiveData :: "bool \<Rightarrow> bool \<Rightarrow> u8 \<Rightarrow> gpib \<Rightarrow> bool \<times> gpib" where
  "receiveData detectEoi detectEndByte endByte s =
     (let eor' = eor (cfg s) AND 7;
          s0 = s\<lparr>txBreak := False\<rparr>;
          readWithEoi = (eoi (cfg s0) \<or> detectEoi \<or> eor (cfg s0) = 7);
          s1 = (if cmode (cfg s0) = 2
                then setControls CLAS (snd (addressDevice (paddr (cfg s0)) TALK s0))
                else setControls DLAS s0);
          readWithEoi' = (if cmode (cfg s0) = 2 then readWithEoi else True);
          s2 = readyGpibDbus s1;
          (r, eoiDetected, s3) =
             receive_loop readWithEoi' detectEndByte endByte eor' (0, 0, 0) False s2;
          s4 = (if eoiDetected \<and> eot_en (cfg s3) then print [eot_ch (cfg s3)] s3 else s3);
          s5 = (if cmode (cfg s4) = 2 then setControls CIDS (snd (unAddressDevice s4))
                else setControls DIDS s4);
          s6 = (if txBreak s5 then s5\<lparr>txBreak := False\<rparr> else s5)
      in (if r > 0 then ERR else OK, s6))"

text \<open>
  \<open>sendData_loop\<close> is the \<^verbatim>\<open>for\<close> loop of \<^verbatim>\<open>sendData\<close> over the first \<^verbatim>\<open>dsize\<close> bytes of
  \<^verbatim>\<open>data\<close>, with its \<^verbatim>\<open>break\<close> on \<^verbatim>\<open>err\<close>; at every call site \<^verbatim>\<open>data\<close> holds at least
  \<^verbatim>\<open>dsize\<close> bytes.  \<open>eoi_pulse\<close> is the block that follows the terminators: the EOI line is
  made an output, driven low, and driven high again 40 microseconds later.
\<close>

fun sendData_loop :: "u8 list \<Rightarrow> gpib \<Rightarrow> bool \<times> gpib" where
  "sendData_loop [] s = (False, s)"
| "sendData_loop (d # ds) s =
     (let (r, s1) = (if eoi (cfg s) then writeByte d NO_EOI s
                     else if d \<noteq> CR \<or> d \<noteq> LF \<or> d \<noteq> ESC then writeByte d NO_EOI s
                     else (0, s))
      in if r \<noteq> 0 then (True, s1) else sendData_loop ds s1)"

definition eoi_pulse :: "gpib \<Rightarrow> gpib" where
  "eoi_pulse s =
     (let s1 = setGpibState 0x00 0x10 0 (setGpibState 0x10 0x10 1 s);
          s2 = s1\<lparr>wire := wire s1 @ [EoiPulse]\<rparr>
      in setGpibState 0x10 0x10 0 s2)"

definition sendData :: "u8 list \<Rightarrow> u8 \<Rightarrow> gpib \<Rightarrow> gpib" where
  "sendData data dsize s =
     (let s1 = (if cmode (cfg s) = 2 then setControls CTAS s else setControls DTAS s);
          (err, s2) = sendData_loop (take (unat dsize) data) s1;
          s3 = (if \<not> err
                then (let s2a = (if eos (cfg s2) AND 0x2 = 0 then snd (writeByte CR NO_EOI s2)
                                 else s2)
                      in if eos (cfg s2a) AND 0x1 = 0 then snd (writeByte LF NO_EOI s2a)
                         else s2a)
                else s2);
          s4 = (if eoi (cfg s3) then eoi_pulse s3 else s3)
      in if cmode (cfg s4) = 2 then setControls CIDS s4 else setControls DIDS s4)"

subsection \<open>The attention service: reading the command burst\<close>

text \<open>
  The first loop of \<^verbatim>\<open>attnRequired\<close>.  \<open>cmdbytes\<close> is the local array
  \<^verbatim>\<open>uint8_t cmdbytes[5]\<close>; a store outside the array, which C leaves undefined, ends the
  model with the fault \<open>OutOfBounds\<close> and the index.  \<open>attn_pass\<close> is the loop body
  (\<open>Inr (True, \<dots>)\<close> goes round again), \<open>attn_read\<close> the function up to the end of the loop.
\<close>

datatype fault = OutOfBounds nat

definition cmdbuflen :: u8 where "cmdbuflen = 35"

definition attn_pass ::
  "u8 list \<Rightarrow> u8 \<Rightarrow> u8 \<Rightarrow> u8 \<Rightarrow> gpib \<Rightarrow> fault + (bool \<times> u8 list \<times> u8 \<times> u8 \<times> u8 \<times> gpib)" where
  "attn_pass cmdbytes bytecnt ustat db s =
     (let (a, s1) = isAssertedATN s
      in if \<not> (a \<and> bytecnt < cmdbuflen) then Inr (False, cmdbytes, bytecnt, ustat, db, s1)
         else
           let (r, db', e, s2) = readByte db False s1
           in if r > 0 then Inr (False, cmdbytes, bytecnt, ustat, db', s2)
              else if db' = 0x3F then Inr (True, cmdbytes, bytecnt, ustat OR 0x01, db', s2)
              else if db' = 0x5F then Inr (True, cmdbytes, bytecnt, ustat OR 0x02, db', s2)
              else if unat bytecnt < length cmdbytes
                   then Inr (True, cmdbytes[unat bytecnt := db'], bytecnt + 1, ustat, db', s2)
                   else Inl (OutOfBounds (unat bytecnt)))"

function attn_loop ::
  "u8 list \<Rightarrow> u8 \<Rightarrow> u8 \<Rightarrow> u8 \<Rightarrow> gpib \<Rightarrow> fault + (u8 list \<times> u8 \<times> u8 \<times> u8 \<times> gpib)" where
  "attn_loop cmdbytes bytecnt ustat db s =
     (case attn_pass cmdbytes bytecnt ustat db s of
        Inl f \<Rightarrow> Inl f
      | Inr (True, cmdbytes', bytecnt', ustat', db', s') \<Rightarrow>
          attn_loop cmdbytes' bytecnt' ustat' db' s'
      | Inr (False, cmdbytes', bytecnt', ustat', db', s') \<Rightarrow>
          Inr (cmdbytes', bytecnt', ustat', db', s'))"
  by pat_completeness auto

definition attn_read :: "gpib \<Rightarrow> fault + (u8 list \<times> u8 \<times> u8 \<times> u8 \<times> gpib)" where
  "attn_read s = attn_loop [0, 0, 0, 0, 0] 0 0 0 (setControls DLAS s)"

subsection \<open>Observations on the bus\<close>

text \<open>
  \<open>sent\<close> lists the bytes this node has put on the data lines, each with the bus-role
  state the engine was in at that moment: a byte written in \<open>CCMS\<close> is a command byte
  (ATN asserted), a byte written in \<open>CTAS\<close> or \<open>DTAS\<close> is data.
\<close>

fun ev_byte :: "wire_ev \<Rightarrow> (cstate \<times> u8) list" where
  "ev_byte (Wr st b e) = [(st, b)]"
| "ev_byte (Rd st b e) = []"
| "ev_byte EoiPulse = []"

definition sent :: "gpib \<Rightarrow> (cstate \<times> u8) list" where
  "sent s = concat (map ev_byte (wire s))"

text \<open>
  Two abbreviations for parts of \<^verbatim>\<open>writeByte\<close>: the abort test at the head of its loop
  (device role only), and its epilogue after a completed handshake.
\<close>

definition wr_abort :: "gpib \<Rightarrow> pins \<Rightarrow> bool" where
  "wr_abort s p = (cmode (cfg s) = 1 \<and> (p_ifc p = LOW \<or> p_atn p = LOW))"

definition release_dav :: "bool \<Rightarrow> gpib \<Rightarrow> gpib" where
  "release_dav l s = setDataVal 0 (if eoi (cfg s) \<and> l then setGpibState 0x18 0x18 0 s
                                  else setGpibState 0x08 0x08 0 s)"

text \<open>
  A listener that completes the handshake within two passes of the loop: it shows NDAC
  low and NRFD high, then NRFD low and NDAC high.
\<close>

definition wr_ok :: "pins list" where
  "wr_ok = [silent\<lparr>p_ndac := LOW\<rparr>, silent\<lparr>p_nrfd := LOW\<rparr>]"

text \<open>The engine as the constructor leaves it, with a configuration and a bus script.\<close>

definition engine :: "cfgrec \<Rightarrow> pins list list \<Rightarrow> pins list list \<Rightarrow> gpib" where
  "engine c ws rs = \<lparr>cfg = c, cstate = NOSTATE, deviceAddressed = False, txBreak = False,
     ctrl_dir = 0, ctrl_lvl = 0xFF, dbus = None, wire = [], atn_in = [], wr_in = ws,
     rd_in = rs, host_out = []\<rparr>"

section \<open>The command interpreter\<close>

subsection \<open>State of the sketch, host output\<close>

text \<open>
  The globals of the sketch that the embedded functions use, with the engine object
  \<^verbatim>\<open>gpibBus\<close>.  The globals \<^verbatim>\<open>readWithEoi\<close>, \<^verbatim>\<open>readWithEndByte\<close> and \<^verbatim>\<open>endByte\<close> carry the
  suffix \<open>_g\<close>, since the parameters of \<^verbatim>\<open>receiveData\<close> have the same names.  The parse
  buffer \<open>pBuf\<close> is a list of \<open>PBSIZE\<close> bytes; \<open>pbPtr\<close> is a \<^verbatim>\<open>uint8_t\<close>.
\<close>

definition PBSIZE :: nat where "PBSIZE = 256"

record ar488 =
  gpibBus :: gpib
  pBuf :: "u8 list"
  pbPtr :: u8
  isEsc :: bool
  isPlusEscaped :: bool
  isVerbose :: bool
  lnRdy :: u8
  dataBufferFull :: bool
  sendIdn :: bool
  isQuery :: bool
  autoRead :: bool
  readWithEoi_g :: bool
  readWithEndByte_g :: bool
  endByte_g :: u8

text \<open>
  \<^verbatim>\<open>dataPort.print\<close> and \<^verbatim>\<open>dataPort.println\<close> (which appends CR LF); \<open>str\<close> gives the bytes
  of a string literal and \<open>dec\<close> the decimal digits that \<^verbatim>\<open>print\<close> writes for a number.
\<close>

definition str :: "string \<Rightarrow> u8 list" where
  "str cs = map of_char cs"


definition dp_print :: "u8 list \<Rightarrow> ar488 \<Rightarrow> ar488" where
  "dp_print bs k = k\<lparr>gpibBus := print bs (gpibBus k)\<rparr>"

definition dp_println :: "u8 list \<Rightarrow> ar488 \<Rightarrow> ar488" where
  "dp_println bs k = dp_print (bs @ [CR, LF]) k"

definition verbose :: "u8 list \<Rightarrow> ar488 \<Rightarrow> ar488" where
  "verbose bs k = (if isVerbose k then dp_println bs k else k)"

definition showPrompt :: "ar488 \<Rightarrow> ar488" where
  "showPrompt k = dp_print (str ''> '') k"


subsection \<open>Parameters of a command\<close>




definition isspace :: "char \<Rightarrow> bool" where
  "isspace c = (c = CHR '' '' \<or> (9 \<le> (of_char c :: nat) \<and> (of_char c :: nat) \<le> 13))"

definition isdigit :: "char \<Rightarrow> bool" where
  "isdigit c = (48 \<le> (of_char c :: nat) \<and> (of_char c :: nat) \<le> 57)"

fun digits_val :: "string \<Rightarrow> nat \<Rightarrow> nat" where
  "digits_val [] acc = acc"
| "digits_val (c # cs) acc =
     (if isdigit c then digits_val cs (acc * 10 + (of_char c - 48)) else acc)"

definition atoi :: "string \<Rightarrow> int" where
  "atoi cs =
     (case dropWhile isspace cs of
        [] \<Rightarrow> 0
      | c # r \<Rightarrow> if c = CHR ''-'' then - int (digits_val r 0)
                 else if c = CHR ''+'' then int (digits_val r 0)
                 else int (digits_val (c # r) 0))"

definition tolower :: "char \<Rightarrow> nat" where
  "tolower c = (if 65 \<le> (of_char c :: nat) \<and> (of_char c :: nat) \<le> 90 then of_char c + 32
                else of_char c)"


subsection \<open>Handlers of bus commands\<close>












text \<open>\<^verbatim>\<open>read_h\<close>, the handler of \<^verbatim>\<open>++read\<close>.\<close>

definition read_h :: "string option \<Rightarrow> ar488 \<Rightarrow> ar488" where
  "read_h params k =
     (let k0 = k\<lparr>readWithEoi_g := False, readWithEndByte_g := False, endByte_g := 0\<rparr>;
          k1 = (case params of
                  None \<Rightarrow> k0
                | Some p \<Rightarrow>
                    if length p > 3 then verbose (str ''Invalid parameter - ignored!'') k0
                    else if map tolower (take 3 p) = [101, 111, 105]
                    then k0\<lparr>readWithEoi_g := True\<rparr>
                    else k0\<lparr>readWithEndByte_g := True, endByte_g := of_int (atoi p)\<rparr>)
      in if amode (cfg (gpibBus k1)) = 3 then k1\<lparr>autoRead := True\<rparr>
         else k1\<lparr>gpibBus :=
                  snd (receiveData (readWithEoi_g k1) (readWithEndByte_g k1) (endByte_g k1)
                         (snd (addressDevice (paddr (cfg (gpibBus k1))) TALK (gpibBus k1))))\<rparr>)"

subsection \<open>The parse buffer\<close>

definition flushPbuf :: "ar488 \<Rightarrow> ar488" where
  "flushPbuf k = k\<lparr>pBuf := replicate PBSIZE 0, pbPtr := 0\<rparr>"

definition addPbuf :: "u8 \<Rightarrow> ar488 \<Rightarrow> ar488" where
  "addPbuf c k = k\<lparr>pBuf := (pBuf k)[unat (pbPtr k) := c], pbPtr := pbPtr k + 1\<rparr>"

definition isCmd :: "u8 list \<Rightarrow> bool" where
  "isCmd buffr = (buffr ! 0 = PLUS \<and> buffr ! 1 = PLUS)"

definition isIdnQuery :: "u8 list \<Rightarrow> bool" where
  "isIdnQuery buffr =
     (map (\<lambda>b. if 65 \<le> unat b \<and> unat b \<le> 90 then b + 32 else b) (take 5 buffr)
        = str ''*idn?'')"

text \<open>
  \<open>parseInput_char\<close> is the first \<^verbatim>\<open>if\<close> of \<^verbatim>\<open>parseInput\<close> with its \<^verbatim>\<open>switch\<close>; its first
  result is \<open>True\<close> for the \<^verbatim>\<open>return 0\<close> on a blank line, the second is \<^verbatim>\<open>r\<close>.  The
  comparisons of \<^verbatim>\<open>pbPtr\<close> with \<^verbatim>\<open>PBSIZE\<close> are made on integers, as in C.
\<close>

definition parseInput_char :: "u8 \<Rightarrow> ar488 \<Rightarrow> bool \<times> u8 \<times> ar488" where
  "parseInput_char c k =
     (let k0 = (if isVerbose k \<and> c \<noteq> LF then dp_print [c] k else k)
      in if c = CR \<or> c = LF then
           (if isEsc k0 then (False, 0, (addPbuf c k0)\<lparr>isEsc := False\<rparr>)
            else if pbPtr k0 = 0
            then (True, 0,
                  (let k1 = flushPbuf k0
                   in if isVerbose k1 then showPrompt (dp_println [] k1) else k1))
            else
              (let (r, k1) =
                     (if 2 < unat (pbPtr k0) \<and> isCmd (pBuf k0) \<and> \<not> isPlusEscaped k0
                      then (if pBuf k0 ! 2 = 0x21 then (3, flushPbuf k0) else (1, k0))
                      else if 3 < unat (pbPtr k0) \<and> 0 < idn (cfg (gpibBus k0))
                              \<and> isIdnQuery (pBuf k0)
                      then (0, flushPbuf (k0\<lparr>sendIdn := True\<rparr>))
                      else if 0 < unat (pbPtr k0) then (2, k0)
                      else (0, k0))
               in (False, r, k1\<lparr>isPlusEscaped := False\<rparr>)))
         else if c = ESC then
           (if isEsc k0 then (False, 0, (addPbuf c k0)\<lparr>isEsc := False\<rparr>)
            else (False, 0, k0\<lparr>isEsc := True\<rparr>))
         else if c = PLUS then
           (let k1 = (if isEsc k0
                      then (if unat (pbPtr k0) < 2
                            then k0\<lparr>isEsc := False, isPlusEscaped := True\<rparr>
                            else k0\<lparr>isEsc := False\<rparr>)
                      else k0)
            in (False, 0, addPbuf c k1))
         else (False, 0, (addPbuf c k0)\<lparr>isEsc := False\<rparr>))"

definition parseInput :: "u8 \<Rightarrow> ar488 \<Rightarrow> u8 \<times> ar488" where
  "parseInput c k =
     (let (ret, r, k1) = (if unat (pbPtr k) < PBSIZE then parseInput_char c k else (False, 0, k))
      in if ret then (0, k1)
         else if PBSIZE \<le> unat (pbPtr k1) then
           (if isCmd (pBuf k1) \<and> r = 0
            then (r, flushPbuf (verbose (str ''ERROR - Command buffer overflow!'') k1))
            else (2, k1\<lparr>dataBufferFull := True\<rparr>))
         else (r, k1))"

text \<open>
  \<^verbatim>\<open>serialIn_h\<close>: the bytes waiting on the host link are parsed until a line is ready;
  the result is the buffer status, the bytes not yet read, and the state.
\<close>

fun serialIn_h :: "u8 list \<Rightarrow> ar488 \<Rightarrow> u8 \<times> u8 list \<times> ar488" where
  "serialIn_h [] k = (0, [], k)"
| "serialIn_h (c # cs) k =
     (case parseInput c k of (bufferStatus, k') \<Rightarrow>
        if bufferStatus = 0 then serialIn_h cs k' else (bufferStatus, cs, k'))"

text \<open>
  \<^verbatim>\<open>sendToInstrument(buffr, dsize)\<close>.  For \<^verbatim>\<open>dsize = 0\<close> the source reads \<^verbatim>\<open>buffr[-1]\<close>; the
  main loop calls it with \<^verbatim>\<open>dsize = pbPtr > 0\<close>.
\<close>

definition sendToInstrument :: "u8 list \<Rightarrow> u8 \<Rightarrow> ar488 \<Rightarrow> ar488" where
  "sendToInstrument buffr dsize k =
     (let k1 = (if dsize \<noteq> 0 \<and> buffr ! (unat dsize - 1) = 0x3F then k\<lparr>isQuery := True\<rparr> else k);
          b1 = (if \<not> haveAddressedDevice (gpibBus k1)
                then snd (addressDevice (paddr (cfg (gpibBus k1))) LISTEN (gpibBus k1))
                else gpibBus k1);
          b2 = sendData buffr dsize b1;
          k2 = (if dataBufferFull k1 then k1\<lparr>gpibBus := b2, dataBufferFull := False\<rparr>
                else k1\<lparr>gpibBus := snd (unAddressDevice b2)\<rparr>);
          k3 = (if isVerbose k2 then showPrompt k2 else k2)
      in (flushPbuf k3)\<lparr>lnRdy := 0\<rparr>)"


text \<open>Parts of \<^verbatim>\<open>readByte\<close>, named for the proofs, and a talker's script for one byte.\<close>

definition rd_abort :: "gpib \<Rightarrow> bool \<Rightarrow> pins \<Rightarrow> bool" where
  "rd_abort s atnStat p = (cmode (cfg s) = 1 \<and> (p_ifc p = LOW \<or> (atnStat \<and> p_atn p \<noteq> LOW)))"

definition rd_ready :: "gpib \<Rightarrow> gpib" where
  "rd_ready s = setGpibState 0x04 0x04 0 s"

definition rd_take :: "pins \<Rightarrow> bool \<Rightarrow> bool \<Rightarrow> gpib \<Rightarrow> gpib" where
  "rd_take p readWithEoi e0 s =
     (let s6 = setGpibState 0x00 0x04 0 s
      in (setGpibState 0x02 0x02 0 s6)
           \<lparr>wire := wire s6 @ [Rd (cstate s6) (p_dio p) ((readWithEoi \<and> p_eoi p = LOW) \<or> e0)]\<rparr>)"

definition rd_done :: "gpib \<Rightarrow> gpib" where
  "rd_done s = setGpibState 0x00 0x02 0 s"

text \<open>
  A talker that puts the byte \<open>b\<close> on the bus, with the EOI line at level \<open>e\<close>, and
  withdraws it on the next pass; \<open>atn\<close> is the level of ATN meanwhile.
\<close>

definition rd_byte :: "level \<Rightarrow> level \<Rightarrow> u8 \<Rightarrow> pins list" where
  "rd_byte atn e b = [silent\<lparr>p_atn := atn, p_eoi := e, p_dav := LOW, p_dio := b\<rparr>,
                      silent\<lparr>p_atn := atn\<rparr>]"

section \<open>The sketch \<^verbatim>\<open>AR488.ino\<close>: addressing\<close>

text \<open>
  The repository also holds the earlier single-file sketch.  Its \<^verbatim>\<open>addrDev\<close> is embedded
  here with what it calls: \<^verbatim>\<open>gpibSendCmd\<close>, \<^verbatim>\<open>gpibWriteByte\<close>, \<^verbatim>\<open>Wait_on_pin_state\<close>,
  \<^verbatim>\<open>setGpibControls\<close> and the three-argument \<^verbatim>\<open>setGpibState(pdir, pstat, mask)\<close>.
  The snapshots of one \<^verbatim>\<open>gpibWriteByte\<close> call are what its four waits see, in order; a wait
  that runs out of snapshots has timed out.
\<close>

record ino =
  i_caddr :: u8
  i_cstate :: cstate
  i_tranBrk :: u8
  i_dir :: u8
  i_lvl :: u8
  i_dbus :: "u8 option"
  i_wire :: "wire_ev list"
  i_wr_in :: "pins list list"

definition UNL :: u8 where "UNL = 0x3F"
definition TAD :: u8 where "TAD = 0x40"
definition LAD :: u8 where "LAD = 0x20"

definition ino_setGpibState :: "u8 \<Rightarrow> u8 \<Rightarrow> u8 \<Rightarrow> ino \<Rightarrow> ino" where
  "ino_setGpibState pdir pstat msk s =
     s\<lparr>i_dir := (i_dir s AND NOT msk) OR (pdir AND msk),
       i_lvl := (i_lvl s AND NOT msk) OR (pstat AND msk)\<rparr>"

fun setGpibControls_lines :: "cstate \<Rightarrow> ino \<Rightarrow> ino" where
  "setGpibControls_lines CINI s = ino_setGpibState 0xB8 0xDF 0xFF s"
| "setGpibControls_lines CIDS s = ino_setGpibState 0xB8 0xDF 0x9E s"
| "setGpibControls_lines CCMS s = ino_setGpibState 0xB9 0x5F 0x9F s"
| "setGpibControls_lines CLAS s = ino_setGpibState 0xA6 0xD9 0x9E s"
| "setGpibControls_lines CTAS s = ino_setGpibState 0xB9 0xDF 0x9E s"
| "setGpibControls_lines DINI s = ino_setGpibState 0x00 0xFF 0xFF s"
| "setGpibControls_lines DIDS s = ino_setGpibState 0x00 0xFF 0x0E s"
| "setGpibControls_lines DLAS s = ino_setGpibState 0x06 0xF9 0x0E s"
| "setGpibControls_lines DTAS s = ino_setGpibState 0x08 0xF9 0x0E s"
| "setGpibControls_lines NOSTATE s = s"

definition setGpibControls :: "cstate \<Rightarrow> ino \<Rightarrow> ino" where
  "setGpibControls state s = (setGpibControls_lines state s)\<lparr>i_cstate := state\<rparr>"

fun Wait_on_pin_state ::
  "level \<Rightarrow> (pins \<Rightarrow> level) \<Rightarrow> pins list \<Rightarrow> ino \<Rightarrow> bool \<times> pins list \<times> ino" where
  "Wait_on_pin_state st pin [] s = (True, [], s)"
| "Wait_on_pin_state st pin (p # ps) s =
     (if pin p = st then (False, p # ps, s)
      else Wait_on_pin_state st pin ps (if p_eoi p = LOW then s\<lparr>i_tranBrk := 2\<rparr> else s))"

definition ino_put_byte :: "u8 \<Rightarrow> ino \<Rightarrow> ino" where
  "ino_put_byte db s =
     (let s1 = ino_setGpibState 0x08 0x00 0x08 (s\<lparr>i_dbus := Some db\<rparr>)
      in s1\<lparr>i_wire := i_wire s1 @ [Wr (i_cstate s1) db (bit (i_dir s1) 4 \<and> \<not> bit (i_lvl s1) 4)]\<rparr>)"

definition gpibWriteByte :: "u8 \<Rightarrow> ino \<Rightarrow> bool \<times> ino" where
  "gpibWriteByte db s =
     (let snaps = (case i_wr_in s of [] \<Rightarrow> [] | ps # rest \<Rightarrow> ps);
          s0 = s\<lparr>i_wr_in := tl (i_wr_in s)\<rparr>
      in case Wait_on_pin_state LOW p_ndac snaps s0 of
           (True, ps1, s1) \<Rightarrow> (True, s1)
         | (False, ps1, s1) \<Rightarrow>
       (case Wait_on_pin_state HIGH p_nrfd ps1 s1 of
           (True, ps2, s2) \<Rightarrow> (True, s2)
         | (False, ps2, s2) \<Rightarrow>
       (case Wait_on_pin_state LOW p_nrfd ps2 (ino_put_byte db s2) of
           (True, ps3, s3) \<Rightarrow> (True, s3)
         | (False, ps3, s3) \<Rightarrow>
       (case Wait_on_pin_state HIGH p_ndac ps3 s3 of
           (True, ps4, s4) \<Rightarrow> (True, s4)
         | (False, ps4, s4) \<Rightarrow>
             (False, (ino_setGpibState 0x08 0x08 0x08 s4)\<lparr>i_dbus := Some 0\<rparr>)))))"

definition gpibSendCmd :: "u8 \<Rightarrow> ino \<Rightarrow> bool \<times> ino" where
  "gpibSendCmd cmdByte s =
     (let (st, s1) = gpibWriteByte cmdByte (setGpibControls CCMS s)
      in (if st then ERR else OK, s1))"

definition addrDev :: "u8 \<Rightarrow> bool \<Rightarrow> ino \<Rightarrow> bool \<times> ino" where
  "addrDev addr dir s =
     (case gpibSendCmd UNL s of
        (True, s1) \<Rightarrow> (ERR, s1)
      | (False, s1) \<Rightarrow>
          (if dir
           then (case gpibSendCmd (LAD + i_caddr s1) s1 of
                   (True, s2) \<Rightarrow> (ERR, s2)
                 | (False, s2) \<Rightarrow>
                     (case gpibSendCmd (TAD + addr) s2 of
                        (True, s3) \<Rightarrow> (ERR, s3)
                      | (False, s3) \<Rightarrow> (OK, s3)))
           else (case gpibSendCmd (TAD + i_caddr s1) s1 of
                   (True, s2) \<Rightarrow> (ERR, s2)
                 | (False, s2) \<Rightarrow>
                     (case gpibSendCmd (LAD + addr) s2 of
                        (True, s3) \<Rightarrow> (ERR, s3)
                      | (False, s3) \<Rightarrow> (OK, s3)))))"

definition ino_sent :: "ino \<Rightarrow> (cstate \<times> u8) list" where
  "ino_sent s = concat (map ev_byte (i_wire s))"

definition sketch :: "u8 \<Rightarrow> pins list list \<Rightarrow> ino" where
  "sketch a ws = \<lparr>i_caddr = a, i_cstate = NOSTATE, i_tranBrk = 0, i_dir = 0, i_lvl = 0xFF,
     i_dbus = None, i_wire = [], i_wr_in = ws\<rparr>"

subsection \<open>Listeners that accept every byte\<close>

text \<open>
  A bus whose next \<open>n\<close> write handshakes are completed by the listeners, under a
  time limit that leaves room for a handshake: the condition under which \<open>n\<close> command
  bytes in a row are all accepted.
\<close>

definition accepting :: "nat \<Rightarrow> gpib \<Rightarrow> bool" where
  "accepting n s = (1 < rtmo (cfg s) \<and> n \<le> length (wr_in s) \<and> (\<forall>p \<in> set (take n (wr_in s)). p = wr_ok))"




section \<open>Properties of the data-bus primitives\<close>

lemma and_255_u8: "(x :: u8) AND 255 = x"
proof -
  have "(255 :: u8) = - 1" by simp
  then show ?thesis by (simp only: and.right_neutral)
qed

lemma masked_merge: "((p AND NOT m) OR (x AND m)) AND m = x AND (m :: u8)"
  by (auto simp add: bit_eq_iff bit_simps)

lemma split_data_bits: "(x AND 0x81) OR (x AND 0x7E) = (x :: u8)"
proof -
  have "(x AND 0x81) OR (x AND 0x7E) = x AND (0x81 OR 0x7E)"
    by (simp only: bit.conj_disj_distrib)
  then show ?thesis using and_255_u8 [of x] by simp
qed

lemma readGpibDbus_setGpibDbus: "readGpibDbus (loopback (setGpibDbus b r)) = b"
proof -
  define mD mB :: u8 where "mD = 0x81" and "mB = 0x7E"
  have all_bits: "mD OR mB = - 1"
    by (simp add: mD_def mB_def)
  have "(PIND (loopback (setGpibDbus b r)) AND mD) OR (PINB (loopback (setGpibDbus b r)) AND mB)
      = (NOT b AND mD) OR (NOT b AND mB)"
    unfolding loopback_def setGpibDbus_def Let_def mD_def [symmetric] mB_def [symmetric]
    by (simp add: masked_merge)
  also have "\<dots> = NOT b AND (mD OR mB)"
    by (simp only: bit.conj_disj_distrib)
  also have "\<dots> = NOT b"
    by (simp only: all_bits and.right_neutral)
  finally show ?thesis
    unfolding readGpibDbus_def mD_def mB_def by (simp only: bit.double_compl)
qed

lemma u8_bits_sum:
  "(b :: u8) = of_bool (bit b 0) + 2 * (of_bool (bit b 1) + 2 * (of_bool (bit b 2)
     + 2 * (of_bool (bit b 3) + 2 * (of_bool (bit b 4) + 2 * (of_bool (bit b 5)
     + 2 * (of_bool (bit b 6) + 2 * of_bool (bit b 7)))))))"
proof -
  have "b = horner_sum of_bool 2 (map (bit b) [0..<8])"
    by (simp add: horner_sum_bit_eq_take_bit take_bit_word_eq_self)
  then show ?thesis by (simp add: upt_rec numeral_nat del: upt_Suc)
qed

lemma upt_8: "[0..<8] = [0, 1, 2, 3, 4, 5, 6, 7]"
  by (simp add: upt_rec numeral_nat del: upt_Suc)

lemma list_of_length_8:
  "length (xs :: 'a list) = 8 \<Longrightarrow> \<exists>a b c d e f g h. xs = [a, b, c, d, e, f, g, h]"
  by (auto simp add: length_Suc_conv numeral_nat)

lemma custom_levels:
  assumes "distinct [d0, d1, d2, d3, d4, d5, d6, d7]"
  shows "map (\<lambda>p. digitalRead p (setGpibDbus_custom [d0, d1, d2, d3, d4, d5, d6, d7] b brd))
           [d0, d1, d2, d3, d4, d5, d6, d7]
         = map (\<lambda>i. if bit b i then LOW else HIGH) [0, 1, 2, 3, 4, 5, 6, 7]"
  using assms
  by (simp add: setGpibDbus_custom_def upt_8 digitalRead_def digitalWrite_def pinMode_def
      bit_iff_and_push_bit_not_eq_0 del: push_bit_of_1)

lemma custom_roundtrip_8:
  assumes "distinct [d0, d1, d2, d3, d4, d5, d6, d7]"
  shows "readGpibDbus_custom [d0, d1, d2, d3, d4, d5, d6, d7]
           (setGpibDbus_custom [d0, d1, d2, d3, d4, d5, d6, d7] b brd) = b"
proof -
  have "readGpibDbus_custom [d0, d1, d2, d3, d4, d5, d6, d7]
          (setGpibDbus_custom [d0, d1, d2, d3, d4, d5, d6, d7] b brd)
      = of_bool (bit b 0) + 2 * (of_bool (bit b 1) + 2 * (of_bool (bit b 2)
        + 2 * (of_bool (bit b 3) + 2 * (of_bool (bit b 4) + 2 * (of_bool (bit b 5)
        + 2 * (of_bool (bit b 6) + 2 * of_bool (bit b 7)))))))"
    using custom_levels [OF assms, of b brd]
    by (simp add: readGpibDbus_custom_def upt_8)
  then show ?thesis using u8_bits_sum [of b] by simp
qed

lemma custom_roundtrip:
  assumes "length databus = 8" and "distinct databus"
  shows "readGpibDbus_custom databus (setGpibDbus_custom databus b brd) = b"
proof -
  from assms(1) obtain d0 d1 d2 d3 d4 d5 d6 d7
    where "databus = [d0, d1, d2, d3, d4, d5, d6, d7]"
    using list_of_length_8 by blast
  with assms(2) show ?thesis using custom_roundtrip_8 by simp
qed

lemma setGpibDbus_inverts:
  "PORTB (setGpibDbus b r) AND 0x7E = NOT b AND 0x7E"
  "PORTD (setGpibDbus b r) AND 0x81 = NOT b AND 0x81"
proof -
  define mD mB :: u8 where "mD = 0x81" and "mB = 0x7E"
  have "PORTB (setGpibDbus b r) AND mB = NOT b AND mB"
    unfolding setGpibDbus_def Let_def mD_def [symmetric] mB_def [symmetric]
    by (simp add: masked_merge)
  then show "PORTB (setGpibDbus b r) AND 0x7E = NOT b AND 0x7E"
    by (simp only: mB_def)
  have "PORTD (setGpibDbus b r) AND mD = NOT b AND mD"
    unfolding setGpibDbus_def Let_def mD_def [symmetric] mB_def [symmetric]
    by (simp add: masked_merge)
  then show "PORTD (setGpibDbus b r) AND 0x81 = NOT b AND 0x81"
    by (simp only: mD_def)
qed

text \<open>
  Claim C9.  Driving a byte \<open>b\<close> on the data bus and sampling it back in loopback returns
  \<open>b\<close>, for the register layout and, when the eight data pins are distinct, for the
  generic layout.  The write primitive stores the complement of \<open>b\<close> in the data bits of
  the output latches, and the read primitive complements what the pins show.
\<close>

theorem dbus_loopback_roundtrip:
  "readGpibDbus (loopback (setGpibDbus b r)) = b
   \<and> PORTB (setGpibDbus b r) AND 0x7E = NOT b AND 0x7E
   \<and> PORTD (setGpibDbus b r) AND 0x81 = NOT b AND 0x81
   \<and> readGpibDbus (loopback r) = NOT ((PORTD r AND 0x81) OR (PORTB r AND 0x7E))
   \<and> (length databus = 8 \<and> distinct databus \<longrightarrow>
        readGpibDbus_custom databus (setGpibDbus_custom databus b brd) = b)"
proof -
  have "readGpibDbus (loopback r) = NOT ((PORTD r AND 0x81) OR (PORTB r AND 0x7E))"
    unfolding readGpibDbus_def loopback_def by simp
  then show ?thesis
    using readGpibDbus_setGpibDbus setGpibDbus_inverts custom_roundtrip by blast
qed

theorem dbus_loopback_roundtrip_witness:
  "length [18, 19, 20, 21, 22, 23, 4, 5 :: nat] = 8
   \<and> distinct [18, 19, 20, 21, 22, 23, 4, 5 :: nat]
   \<and> readGpibDbus_custom [18, 19, 20, 21, 22, 23, 4, 5]
        (setGpibDbus_custom [18, 19, 20, 21, 22, 23, 4, 5] 0xA5
           \<lparr>pin_mode = \<lambda>_. INPUT_PULLUP, pin_level = \<lambda>_. HIGH\<rparr>) = 0xA5
   \<and> readGpibDbus (loopback (setGpibDbus 0xA5
        \<lparr>DDRB = 0, DDRD = 0, PORTB = 0, PORTD = 0, PINB = 0, PIND = 0\<rparr>)) = 0xA5"
  using dbus_loopback_roundtrip [of "0xA5"
      "\<lparr>DDRB = 0, DDRD = 0, PORTB = 0, PORTD = 0, PINB = 0, PIND = 0\<rparr>"
      "[18, 19, 20, 21, 22, 23, 4, 5]" "\<lparr>pin_mode = \<lambda>_. INPUT_PULLUP, pin_level = \<lambda>_. HIGH\<rparr>"]
  by simp

section \<open>The write handshake and the command sequences\<close>

lemma not_HIGH [simp]: "(l \<noteq> HIGH) = (l = LOW)"
  by (cases l) simp_all

lemma writeByte_pass_abort:
  "wr_abort s p \<Longrightarrow> \<exists>st. (st = 1 \<or> st = 2) \<and> writeByte_pass p db l stage s = (True, st, setControls DLAS s)"
  by (auto simp add: writeByte_pass_def wr_abort_def)

lemma writeByte_pass_4:
  "\<not> wr_abort s p \<Longrightarrow> writeByte_pass p db l 4 s =
     (if p_ndac p = LOW \<and> p_nrfd p = HIGH then (False, 7, put_byte db l s)
      else if p_ndac p = LOW then (False, 5, s) else (False, 4, s))"
  by (cases "p_ndac p"; cases "p_nrfd p") (auto simp add: writeByte_pass_def wr_abort_def Let_def)

lemma writeByte_pass_5:
  "\<not> wr_abort s p \<Longrightarrow> writeByte_pass p db l 5 s =
     (if p_nrfd p = HIGH then (False, 7, put_byte db l s) else (False, 5, s))"
  by (cases "p_ndac p"; cases "p_nrfd p") (auto simp add: writeByte_pass_def wr_abort_def Let_def)

lemma writeByte_pass_7:
  "\<not> wr_abort s p \<Longrightarrow> writeByte_pass p db l 7 s =
     (if p_nrfd p = LOW \<and> p_ndac p = HIGH then (True, 9, s)
      else if p_nrfd p = LOW then (False, 8, s) else (False, 7, s))"
  by (cases "p_ndac p"; cases "p_nrfd p") (auto simp add: writeByte_pass_def wr_abort_def Let_def)

lemma writeByte_pass_8:
  "\<not> wr_abort s p \<Longrightarrow> writeByte_pass p db l 8 s =
     (if p_ndac p = HIGH then (True, 9, s) else (False, 8, s))"
  by (cases "p_ndac p"; cases "p_nrfd p") (auto simp add: writeByte_pass_def wr_abort_def Let_def)


lemma cfg_put_byte [simp]: "cfg (put_byte db l s) = cfg s"
  by (simp add: put_byte_def Let_def setDataVal_def setGpibState_def)

lemma wr_abort_put_byte [simp]: "wr_abort (put_byte db l s) p = wr_abort s p"
  by (simp add: wr_abort_def)

lemma writeByte_loop_late:
  "stage = 7 \<or> stage = 8 \<Longrightarrow> writeByte_loop ps db l stage s = (r, s') \<Longrightarrow>
     ((r = 7 \<or> r = 8 \<or> r = 9) \<and> s' = s)
     \<or> ((r = 1 \<or> r = 2) \<and> cmode (cfg s) = 1 \<and> s' = setControls DLAS s)"
proof (induction ps arbitrary: stage)
  case Nil
  then show ?case by auto
next
  case (Cons p ps)
  show ?case
  proof (cases "wr_abort s p")
    case True
    then show ?thesis
      using Cons.prems writeByte_pass_abort [OF True, of db l stage]
      by (auto simp add: wr_abort_def)
  next
    case False
    from Cons.prems(1) show ?thesis
    proof
      assume "stage = 7"
      then show ?thesis
        using Cons.prems(2) Cons.IH [of 8] Cons.IH [of 7] False
        by (auto simp add: writeByte_pass_7 split: if_splits)
    next
      assume "stage = 8"
      then show ?thesis
        using Cons.prems(2) Cons.IH [of 8] False
        by (auto simp add: writeByte_pass_8 split: if_splits)
    qed
  qed
qed

lemma writeByte_loop_early:
  "stage = 4 \<or> stage = 5 \<Longrightarrow> writeByte_loop ps db l stage s = (r, s') \<Longrightarrow>
     ((r = 4 \<or> r = 5) \<and> s' = s)
     \<or> ((r = 7 \<or> r = 8 \<or> r = 9) \<and> s' = put_byte db l s)
     \<or> ((r = 1 \<or> r = 2) \<and> cmode (cfg s) = 1
         \<and> (s' = setControls DLAS s \<or> s' = setControls DLAS (put_byte db l s)))"
proof (induction ps arbitrary: stage)
  case Nil
  then show ?case by auto
next
  case (Cons p ps)
  show ?case
  proof (cases "wr_abort s p")
    case True
    then show ?thesis
      using Cons.prems writeByte_pass_abort [OF True, of db l stage]
      by (auto simp add: wr_abort_def)
  next
    case False
    from Cons.prems(1) show ?thesis
    proof
      assume "stage = 4"
      then show ?thesis
        using Cons.prems(2) Cons.IH [of 4] Cons.IH [of 5] False
          writeByte_loop_late [of 7 ps db l "put_byte db l s" r s']
        by (auto simp add: writeByte_pass_4 split: if_splits)
    next
      assume "stage = 5"
      then show ?thesis
        using Cons.prems(2) Cons.IH [of 5] False
          writeByte_loop_late [of 7 ps db l "put_byte db l s" r s']
        by (auto simp add: writeByte_pass_5 split: if_splits)
    qed
  qed
qed


lemma setGpibState_frame [simp]:
  "cfg (setGpibState b m md s) = cfg s"
  "cstate (setGpibState b m md s) = cstate s"
  "deviceAddressed (setGpibState b m md s) = deviceAddressed s"
  "txBreak (setGpibState b m md s) = txBreak s"
  "dbus (setGpibState b m md s) = dbus s"
  "wire (setGpibState b m md s) = wire s"
  "atn_in (setGpibState b m md s) = atn_in s"
  "wr_in (setGpibState b m md s) = wr_in s"
  "rd_in (setGpibState b m md s) = rd_in s"
  "host_out (setGpibState b m md s) = host_out s"
  by (simp_all add: setGpibState_def)

lemma setGpibState_lines [simp]:
  "ctrl_dir (setGpibState b m 0 s) = ctrl_dir s"
  "ctrl_lvl (setGpibState b m 0 s) = (ctrl_lvl s AND NOT m) OR (b AND m)"
  "ctrl_lvl (setGpibState b m 1 s) = ctrl_lvl s"
  "ctrl_dir (setGpibState b m 1 s) = (ctrl_dir s AND NOT m) OR (b AND m)"
  by (simp_all add: setGpibState_def)

lemma setDataVal_frame [simp]:
  "cfg (setDataVal b s) = cfg s"
  "cstate (setDataVal b s) = cstate s"
  "deviceAddressed (setDataVal b s) = deviceAddressed s"
  "txBreak (setDataVal b s) = txBreak s"
  "ctrl_dir (setDataVal b s) = ctrl_dir s"
  "ctrl_lvl (setDataVal b s) = ctrl_lvl s"
  "wire (setDataVal b s) = wire s"
  "atn_in (setDataVal b s) = atn_in s"
  "wr_in (setDataVal b s) = wr_in s"
  "rd_in (setDataVal b s) = rd_in s"
  "host_out (setDataVal b s) = host_out s"
  by (simp_all add: setDataVal_def)

lemma readyGpibDbus_frame [simp]:
  "cfg (readyGpibDbus s) = cfg s"
  "cstate (readyGpibDbus s) = cstate s"
  "deviceAddressed (readyGpibDbus s) = deviceAddressed s"
  "txBreak (readyGpibDbus s) = txBreak s"
  "ctrl_dir (readyGpibDbus s) = ctrl_dir s"
  "ctrl_lvl (readyGpibDbus s) = ctrl_lvl s"
  "wire (readyGpibDbus s) = wire s"
  "atn_in (readyGpibDbus s) = atn_in s"
  "wr_in (readyGpibDbus s) = wr_in s"
  "rd_in (readyGpibDbus s) = rd_in s"
  "host_out (readyGpibDbus s) = host_out s"
  by (simp_all add: readyGpibDbus_def)

lemma setControls_lines_frame [simp]:
  "cfg (setControls_lines st s) = cfg s"
  "cstate (setControls_lines st s) = cstate s"
  "deviceAddressed (setControls_lines st s) = deviceAddressed s"
  "txBreak (setControls_lines st s) = txBreak s"
  "wire (setControls_lines st s) = wire s"
  "atn_in (setControls_lines st s) = atn_in s"
  "wr_in (setControls_lines st s) = wr_in s"
  "rd_in (setControls_lines st s) = rd_in s"
  "host_out (setControls_lines st s) = host_out s"
  by (cases st; simp)+

lemma setControls_frame [simp]:
  "cfg (setControls st s) = cfg s"
  "cstate (setControls st s) = st"
  "deviceAddressed (setControls st s) = deviceAddressed s"
  "txBreak (setControls st s) = txBreak s"
  "wire (setControls st s) = wire s"
  "atn_in (setControls st s) = atn_in s"
  "wr_in (setControls st s) = wr_in s"
  "rd_in (setControls st s) = rd_in s"
  "host_out (setControls st s) = host_out s"
  by (simp_all add: setControls_def)

lemma put_byte_frame [simp]:
  "cstate (put_byte db l s) = cstate s"
  "deviceAddressed (put_byte db l s) = deviceAddressed s"
  "txBreak (put_byte db l s) = txBreak s"
  "ctrl_dir (put_byte db l s) = ctrl_dir s"
  "atn_in (put_byte db l s) = atn_in s"
  "wr_in (put_byte db l s) = wr_in s"
  "rd_in (put_byte db l s) = rd_in s"
  "host_out (put_byte db l s) = host_out s"
  by (simp_all add: put_byte_def Let_def)

lemma sent_put_byte [simp]: "sent (put_byte db l s) = sent s @ [(cstate s, db)]"
  by (simp add: sent_def put_byte_def Let_def)

lemma sent_frame [simp]:
  "sent (setGpibState b m md s) = sent s"
  "sent (setDataVal b s) = sent s"
  "sent (readyGpibDbus s) = sent s"
  "sent (setControls st s) = sent s"
  by (simp_all add: sent_def)

lemma next_wr_frame [simp]:
  "cfg (snd (next_wr s)) = cfg s"
  "cstate (snd (next_wr s)) = cstate s"
  "deviceAddressed (snd (next_wr s)) = deviceAddressed s"
  "txBreak (snd (next_wr s)) = txBreak s"
  "ctrl_dir (snd (next_wr s)) = ctrl_dir s"
  "ctrl_lvl (snd (next_wr s)) = ctrl_lvl s"
  "dbus (snd (next_wr s)) = dbus s"
  "wire (snd (next_wr s)) = wire s"
  "atn_in (snd (next_wr s)) = atn_in s"
  "wr_in (snd (next_wr s)) = tl (wr_in s)"
  "rd_in (snd (next_wr s)) = rd_in s"
  "host_out (snd (next_wr s)) = host_out s"
  "sent (snd (next_wr s)) = sent s"
  by (simp_all add: next_wr_def sent_def split: list.splits)

lemma writeByte_char:
  assumes "writeByte db l s = (r, s')"
  shows "(r = 0 \<and> s' = release_dav l (put_byte db l (snd (next_wr s))))
     \<or> ((r = 4 \<or> r = 5) \<and> s' = snd (next_wr s))
     \<or> ((r = 7 \<or> r = 8) \<and> s' = put_byte db l (snd (next_wr s)))
     \<or> ((r = 1 \<or> r = 2) \<and> cmode (cfg s) = 1
         \<and> (s' = setControls DLAS (snd (next_wr s))
             \<or> s' = setControls DLAS (put_byte db l (snd (next_wr s)))))"
proof (cases "1 < rtmo (cfg s)")
  case False
  with assms show ?thesis
    by (auto simp add: writeByte_def Let_def split_def)
next
  case True
  obtain st s1 where loop: "writeByte_loop (fst (next_wr s)) db l 4 (snd (next_wr s)) = (st, s1)"
    by fastforce
  from writeByte_loop_early [OF _ loop] have
    "((st = 4 \<or> st = 5) \<and> s1 = snd (next_wr s))
     \<or> ((st = 7 \<or> st = 8 \<or> st = 9) \<and> s1 = put_byte db l (snd (next_wr s)))
     \<or> ((st = 1 \<or> st = 2) \<and> cmode (cfg s) = 1
         \<and> (s1 = setControls DLAS (snd (next_wr s))
             \<or> s1 = setControls DLAS (put_byte db l (snd (next_wr s)))))"
    by simp
  moreover from assms True loop have
    "(r, s') = (if st = 9 then (0, release_dav l s1) else (st, s1))"
    by (cases "st = 9") (auto simp add: writeByte_def Let_def release_dav_def split_def split: if_splits)
  ultimately show ?thesis
    by (elim disjE conjE) (simp_all)
qed


lemma release_dav_frame [simp]:
  "cfg (release_dav l s) = cfg s"
  "cstate (release_dav l s) = cstate s"
  "deviceAddressed (release_dav l s) = deviceAddressed s"
  "txBreak (release_dav l s) = txBreak s"
  "ctrl_dir (release_dav l s) = ctrl_dir s"
  "wire (release_dav l s) = wire s"
  "atn_in (release_dav l s) = atn_in s"
  "wr_in (release_dav l s) = wr_in s"
  "rd_in (release_dav l s) = rd_in s"
  "host_out (release_dav l s) = host_out s"
  "sent (release_dav l s) = sent s"
  by (simp_all add: release_dav_def)

lemma writeByte_frame:
  assumes "writeByte db l s = (r, s')"
  shows "cfg s' = cfg s" and "deviceAddressed s' = deviceAddressed s"
    and "txBreak s' = txBreak s" and "atn_in s' = atn_in s" and "rd_in s' = rd_in s"
    and "host_out s' = host_out s" and "wr_in s' = tl (wr_in s)"
  using writeByte_char [OF assms] by auto

lemma writeByte_done:
  assumes "writeByte db l s = (0, s')"
  shows "cstate s' = cstate s" and "sent s' = sent s @ [(cstate s, db)]"
    and "ctrl_dir s' = ctrl_dir s"
  using writeByte_char [OF assms] by auto

lemma writeByte_cstate:
  assumes "writeByte db l s = (r, s')" and "cmode (cfg s) \<noteq> 1"
  shows "cstate s' = cstate s"
  using writeByte_char [OF assms(1)] assms(2) by auto


lemma sendCmd_OK:
  assumes "sendCmd c s = (OK, s')"
  shows "cstate s' = CCMS \<and> sent s' = sent s @ [(CCMS, c)]"
  using assms
  by (auto simp add: sendCmd_def Let_def split: prod.splits if_splits dest: writeByte_done)

lemma sendCmd_ctrl_cstate:
  assumes "sendCmd c s = (r, s')" and "cmode (cfg s) \<noteq> 1"
  shows "cstate s' = CCMS"
  using assms
  by (auto simp add: sendCmd_def Let_def split: prod.splits if_splits dest: writeByte_cstate)

lemma sent_deviceAddressed [simp]: "sent (s\<lparr>deviceAddressed := b\<rparr>) = sent s"
  by (simp add: sent_def)

lemma addressDevice_OK:
  assumes "addressDevice addr talk s = (OK, s')"
  shows "sent s' = sent s @ [(CCMS, GC_UNL), (CCMS, (if talk then GC_TAD else GC_LAD) + addr)]"
    and "deviceAddressed s'" and "cstate s' = CCMS"
proof -
  obtain s1 where 1: "sendCmd GC_UNL s = (OK, s1)"
    using assms by (auto simp add: addressDevice_def split: prod.splits bool.splits)
  obtain s2 where 2: "sendCmd ((if talk then GC_TAD else GC_LAD) + addr) s1 = (OK, s2)"
    and 3: "s' = s2\<lparr>deviceAddressed := True\<rparr>"
    using assms 1 by (auto simp add: addressDevice_def split: prod.splits bool.splits if_splits)
  from sendCmd_OK [OF 1] sendCmd_OK [OF 2] 3
  show "sent s' = sent s @ [(CCMS, GC_UNL), (CCMS, (if talk then GC_TAD else GC_LAD) + addr)]"
    and "deviceAddressed s'" and "cstate s' = CCMS"
    by simp_all
qed


lemma ino_sent_frame [simp]:
  "ino_sent (s\<lparr>i_tranBrk := x\<rparr>) = ino_sent s"
  "ino_sent (s\<lparr>i_dbus := d\<rparr>) = ino_sent s"
  "ino_sent (s\<lparr>i_wr_in := w\<rparr>) = ino_sent s"
  "ino_sent (s\<lparr>i_cstate := c\<rparr>) = ino_sent s"
  "ino_sent (ino_setGpibState pd ps m s) = ino_sent s"
  by (simp_all add: ino_sent_def ino_setGpibState_def)

lemma ino_setGpibState_frame [simp]:
  "i_cstate (ino_setGpibState pd ps m s) = i_cstate s"
  "i_caddr (ino_setGpibState pd ps m s) = i_caddr s"
  by (simp_all add: ino_setGpibState_def)

lemma Wait_on_pin_state_frame:
  "Wait_on_pin_state st pin ps s = (r, ps', s') \<Longrightarrow>
     ino_sent s' = ino_sent s \<and> i_cstate s' = i_cstate s \<and> i_caddr s' = i_caddr s"
  by (induction ps arbitrary: s) (auto split: if_splits)

lemma ino_put_byte_frame [simp]:
  "i_cstate (ino_put_byte db s) = i_cstate s"
  "i_caddr (ino_put_byte db s) = i_caddr s"
  "ino_sent (ino_put_byte db s) = ino_sent s @ [(i_cstate s, db)]"
  by (simp_all add: ino_put_byte_def ino_setGpibState_def ino_sent_def Let_def)

lemma gpibWriteByte_OK:
  assumes "gpibWriteByte db s = (False, s')"
  shows "ino_sent s' = ino_sent s @ [(i_cstate s, db)] \<and> i_cstate s' = i_cstate s
         \<and> i_caddr s' = i_caddr s"
  using assms
  by (auto simp add: gpibWriteByte_def Let_def
      split: prod.splits bool.splits dest!: Wait_on_pin_state_frame)

lemma gpibSendCmd_OK:
  assumes "gpibSendCmd c s = (OK, s')"
  shows "ino_sent s' = ino_sent s @ [(CCMS, c)] \<and> i_caddr s' = i_caddr s"
proof -
  from assms obtain st where "gpibWriteByte c (setGpibControls CCMS s) = (st, s')" and "\<not> st"
    by (auto simp add: gpibSendCmd_def split: prod.splits if_splits)
  then have "gpibWriteByte c (setGpibControls CCMS s) = (False, s')" by simp
  from gpibWriteByte_OK [OF this] show ?thesis
    by (simp add: setGpibControls_def)
qed

lemma addrDev_OK:
  assumes "addrDev addr dir s = (OK, s')"
  shows "ino_sent s' = ino_sent s @ [(CCMS, UNL),
           (CCMS, (if dir then LAD else TAD) + i_caddr s),
           (CCMS, (if dir then TAD else LAD) + addr)]"
proof -
  obtain s1 where 1: "gpibSendCmd UNL s = (OK, s1)"
    using assms by (auto simp add: addrDev_def split: prod.splits bool.splits)
  obtain s2 where 2: "gpibSendCmd ((if dir then LAD else TAD) + i_caddr s1) s1 = (OK, s2)"
    using assms 1 by (auto simp add: addrDev_def split: prod.splits bool.splits if_splits)
  have 3: "gpibSendCmd ((if dir then TAD else LAD) + addr) s2 = (OK, s')"
    using assms 1 2 by (auto simp add: addrDev_def split: prod.splits bool.splits if_splits)
  from gpibSendCmd_OK [OF 1] gpibSendCmd_OK [OF 2] gpibSendCmd_OK [OF 3]
  show ?thesis by simp
qed

lemma writeByte_wr_ok:
  assumes "wr_in s = wr_ok # rest" and "1 < rtmo (cfg s)"
  shows "writeByte db l s = (0, release_dav l (put_byte db l (s\<lparr>wr_in := rest\<rparr>)))"
proof -
  have n: "next_wr s = (wr_ok, s\<lparr>wr_in := rest\<rparr>)"
    using assms(1) by (simp add: next_wr_def)
  have a: "\<And>t. \<not> wr_abort t (silent\<lparr>p_ndac := LOW\<rparr>)" "\<And>t. \<not> wr_abort t (silent\<lparr>p_nrfd := LOW\<rparr>)"
    by (simp_all add: wr_abort_def silent_def)
  have "writeByte_loop wr_ok db l 4 (s\<lparr>wr_in := rest\<rparr>) = (9, put_byte db l (s\<lparr>wr_in := rest\<rparr>))"
    by (simp add: wr_ok_def writeByte_pass_4 [OF a(1)] writeByte_pass_7 [OF a(2)]) (simp add: silent_def)
  then show ?thesis
    using assms(2) n by (simp add: writeByte_def release_dav_def)
qed

lemma sendCmd_wr_ok:
  assumes "wr_in s = wr_ok # rest" and "1 < rtmo (cfg s)"
  shows "fst (sendCmd c s) = OK" and "wr_in (snd (sendCmd c s)) = rest"
    and "rtmo (cfg (snd (sendCmd c s))) = rtmo (cfg s)"
  using assms
  by (simp_all add: sendCmd_def Let_def writeByte_wr_ok [where rest = rest])


lemma addressDevice_wr_ok:
  assumes "wr_in s = wr_ok # wr_ok # rest" and "1 < rtmo (cfg s)"
  shows "fst (addressDevice addr talk s) = OK"
proof -
  have 1: "fst (sendCmd GC_UNL s) = OK" "wr_in (snd (sendCmd GC_UNL s)) = wr_ok # rest"
    "1 < rtmo (cfg (snd (sendCmd GC_UNL s)))"
    using sendCmd_wr_ok [OF assms, of GC_UNL] assms(2) by simp_all
  have 2: "fst (sendCmd c (snd (sendCmd GC_UNL s))) = OK" for c
    using sendCmd_wr_ok(1) [OF 1(2) 1(3)] by simp
  show ?thesis
    using 1(1) 2 by (simp add: addressDevice_def split_def split: bool.splits)
qed

lemma rtmo_engine [simp]: "cfg (engine c ws rs) = c" "wr_in (engine c ws rs) = ws"
  "sent (engine c ws rs) = []"
  by (simp_all add: engine_def sent_def)

text \<open>
  Claim C3, as the code has it.  When every command byte is accepted, the engine's
  \<^verbatim>\<open>addressDevice\<close> puts two command bytes on the bus: UNL, then LAD+addr to make the
  device listen or TAD+addr to make it talk; it never sends the controller's own talk or
  listen address.  The \<^verbatim>\<open>addrDev\<close> of the sketch \<^verbatim>\<open>AR488.ino\<close> puts three: UNL, then
  TAD+controller address and LAD+addr (listen), or LAD+controller address and TAD+addr
  (talk).
\<close>

theorem addressing_sequences:
  "(addressDevice addr talk s = (OK, s') \<longrightarrow>
      sent s' = sent s @ [(CCMS, GC_UNL), (CCMS, (if talk then GC_TAD else GC_LAD) + addr)])
   \<and> (addrDev addr dir t = (OK, t') \<longrightarrow>
      ino_sent t' = ino_sent t @ [(CCMS, UNL), (CCMS, (if dir then LAD else TAD) + i_caddr t),
                                  (CCMS, (if dir then TAD else LAD) + addr)])"
  using addressDevice_OK(1) addrDev_OK by blast

theorem addressing_sequences_witness:
  "addressDevice 9 LISTEN (engine defaultCfg [wr_ok, wr_ok] [])
     = (OK, snd (addressDevice 9 LISTEN (engine defaultCfg [wr_ok, wr_ok] [])))
   \<and> sent (snd (addressDevice 9 LISTEN (engine defaultCfg [wr_ok, wr_ok] [])))
     = [(CCMS, 0x3F), (CCMS, 0x29)]
   \<and> addrDev 9 False (sketch 0 [wr_ok, wr_ok, wr_ok])
     = (OK, snd (addrDev 9 False (sketch 0 [wr_ok, wr_ok, wr_ok])))
   \<and> ino_sent (snd (addrDev 9 False (sketch 0 [wr_ok, wr_ok, wr_ok])))
     = [(CCMS, 0x3F), (CCMS, 0x40), (CCMS, 0x29)]"
proof -
  let ?E = "engine defaultCfg [wr_ok, wr_ok] []"
  let ?K = "sketch 0 [wr_ok, wr_ok, wr_ok]"
  have "fst (addressDevice 9 LISTEN ?E) = OK"
    by (rule addressDevice_wr_ok [where rest = "[]"]) (simp_all add: defaultCfg_def)
  then have a: "addressDevice 9 LISTEN ?E = (OK, snd (addressDevice 9 LISTEN ?E))"
    by (simp add: prod_eq_iff)
  have "fst (addrDev 9 False ?K) = OK"
    by (simp add: addrDev_def gpibSendCmd_def gpibWriteByte_def sketch_def wr_ok_def silent_def
        setGpibControls_def ino_setGpibState_def ino_put_byte_def Let_def UNL_def TAD_def LAD_def)
  then have b: "addrDev 9 False ?K = (OK, snd (addrDev 9 False ?K))"
    by (simp add: prod_eq_iff)
  from addressing_sequences [of 9 LISTEN ?E "snd (addressDevice 9 LISTEN ?E)"
      False ?K "snd (addrDev 9 False ?K)"] a b
  show ?thesis
    by (simp add: GC_UNL_def GC_LAD_def UNL_def TAD_def LAD_def sketch_def ino_sent_def)
qed

text \<open>
  Claim C3 as stated fails on the engine: addressing device 9 to listen from the default
  configuration, with a listener that accepts every byte, sends UNL and LAD+9 only.
\<close>

theorem addressDevice_counterexample:
  "fst (addressDevice 9 LISTEN (engine defaultCfg [wr_ok, wr_ok, wr_ok] [])) = OK
   \<and> sent (snd (addressDevice 9 LISTEN (engine defaultCfg [wr_ok, wr_ok, wr_ok] [])))
       = [(CCMS, 0x3F), (CCMS, 0x29)]
   \<and> sent (snd (addressDevice 9 LISTEN (engine defaultCfg [wr_ok, wr_ok, wr_ok] [])))
       \<noteq> [(CCMS, GC_UNL), (CCMS, GC_TAD + caddr defaultCfg), (CCMS, GC_LAD + 9)]"
proof -
  let ?E = "engine defaultCfg [wr_ok, wr_ok, wr_ok] []"
  have f: "fst (addressDevice 9 LISTEN ?E) = OK"
    by (rule addressDevice_wr_ok [where rest = "[wr_ok]"]) (simp_all add: defaultCfg_def)
  then have "addressDevice 9 LISTEN ?E = (OK, snd (addressDevice 9 LISTEN ?E))"
    by (simp add: prod_eq_iff)
  from addressDevice_OK(1) [OF this] f show ?thesis
    by (simp add: GC_UNL_def GC_LAD_def)
qed

section \<open>Serial-poll response of the device\<close>

lemma writeByte_sent:
  assumes "writeByte db l s = (r, s')"
  shows "sent s' = sent s \<or> sent s' = sent s @ [(cstate s, db)]"
  using writeByte_char [OF assms] by auto

lemma clrSrqSig_frame [simp]:
  "cfg (clrSrqSig s) = cfg s"
  "cstate (clrSrqSig s) = cstate s"
  "sent (clrSrqSig s) = sent s"
  "bit (ctrl_dir (clrSrqSig s)) 6 = False"
  "bit (ctrl_lvl (clrSrqSig s)) 6 = True"
  by (simp_all add: clrSrqSig_def bit_simps)

lemma sent_cfg_update [simp]: "sent (s\<lparr>cfg := c\<rparr>) = sent s"
  by (simp add: sent_def)

lemma stat_bit6_clear: "\<not> bit ((x :: u8) AND NOT 0x40) 6"
  by (simp add: bit_simps)

lemma and_not_40_and_40: "((x :: u8) AND NOT 0x40) AND 0x40 = 0"
  by (simp add: bit_eq_iff bit_simps)

lemma sendStatus_props:
  "cstate (sendStatus s) = DIDS"
  "stat (cfg (sendStatus s)) = stat (cfg s) AND NOT 0x40"
  "\<not> bit (ctrl_dir (sendStatus s)) 6"
  "bit (ctrl_lvl (sendStatus s)) 6"
  by (simp_all add: sendStatus_def Let_def split_def writeByte_frame(1) [OF surjective_pairing])

lemma sendStatus_sent:
  "sent (sendStatus s) = sent (snd (writeByte (stat (cfg s)) NO_EOI
      (if cstate s = DTAS then s else setControls DTAS s)))"
  by (simp add: sendStatus_def Let_def split_def)

lemma and_not_40_and_40': "((x :: u8) AND - 65) AND 64 = 0"
  using and_not_40_and_40 [of x] by simp

lemma device_spe_h_stat: "stat (cfg (device_spe_h s)) = stat (cfg s) AND NOT 0x40"
  by (simp add: device_spe_h_def Let_def sendStatus_props(2) and_not_40_and_40')

lemma writeByte_nobody:
  assumes "wr_in s = []"
  shows "writeByte db l s = (4, s)"
proof -
  have n: "next_wr s = ([silent], s)"
    using assms(1) by (simp add: next_wr_def)
  have na: "\<not> wr_abort s silent"
    by (simp add: wr_abort_def silent_def)
  have "writeByte_loop [silent] db l 4 s = (4, s)"
    by (simp add: writeByte_pass_4 [OF na]) (simp add: silent_def)
  then show ?thesis
    by (simp add: writeByte_def n)
qed

lemma device_spe_h_sendStatus: "device_spe_h s = sendStatus s"
  by (simp add: device_spe_h_def Let_def sendStatus_props(2) and_not_40_and_40')

lemma wr_in_setControls [simp]: "wr_in (setControls st s) = wr_in s"
  by (simp add: setControls_frame)

text \<open>
  Claim C7, as the code has it.  \<^verbatim>\<open>sendStatus\<close> enters DTAS and tries to write the
  configured status byte.  When the write handshake completes (\<^verbatim>\<open>writeByte\<close> returns 0,
  as it does when a listener answers with the handshake \<open>wr_ok\<close> within the time limit)
  exactly that byte goes onto the bus, in state DTAS; when no listener answers, nothing
  is written; in no case is anything else written.  Whether the byte was written or not,
  \<^verbatim>\<open>sendStatus\<close> returns in DIDS with bit 6 of the stored status byte cleared and the SRQ
  line released (an input with pull-up, not driven low).  \<^verbatim>\<open>device_spe_h\<close>, the handler of
  SPE, does what \<^verbatim>\<open>sendStatus\<close> does and nothing more: its own test of bit 6 finds the bit
  already cleared.  So after the handler the same bytes are on the bus, the state is DIDS
  and bit 6 of the status byte is 0.
\<close>

theorem sendStatus_sequence:
  "(1 < rtmo (cfg s) \<and> wr_in s = wr_ok # rest
      \<longrightarrow> sent (sendStatus s) = sent s @ [(DTAS, stat (cfg s))])
   \<and> (fst (writeByte (stat (cfg s)) NO_EOI (if cstate s = DTAS then s else setControls DTAS s)) = 0
        \<longrightarrow> sent (sendStatus s) = sent s @ [(DTAS, stat (cfg s))])
   \<and> (wr_in s = [] \<longrightarrow> sent (sendStatus s) = sent s)
   \<and> (sent (sendStatus s) = sent s \<or> sent (sendStatus s) = sent s @ [(DTAS, stat (cfg s))])
   \<and> cstate (sendStatus s) = DIDS
   \<and> stat (cfg (sendStatus s)) = stat (cfg s) AND NOT 0x40
   \<and> \<not> bit (stat (cfg (sendStatus s))) 6
   \<and> \<not> bit (ctrl_dir (sendStatus s)) 6 \<and> bit (ctrl_lvl (sendStatus s)) 6
   \<and> \<not> drives_low (sendStatus s) 6
   \<and> device_spe_h s = sendStatus s"
proof -
  let ?s1 = "if cstate s = DTAS then s else setControls DTAS s"
  let ?w = "writeByte (stat (cfg s)) NO_EOI ?s1"
  have w: "?w = (fst ?w, snd ?w)" by simp
  have c: "cstate ?s1 = DTAS" "sent ?s1 = sent s" "wr_in ?s1 = wr_in s" "cfg ?s1 = cfg s"
    by simp_all
  have 1: "sent (sendStatus s) = sent s \<or> sent (sendStatus s) = sent s @ [(DTAS, stat (cfg s))]"
    using writeByte_sent [OF w] c by (simp only: sendStatus_sent)
  have 2: "fst ?w = 0 \<longrightarrow> sent (sendStatus s) = sent s @ [(DTAS, stat (cfg s))]"
  proof
    assume "fst ?w = 0"
    then have "?w = (0, snd ?w)" by (simp add: prod_eq_iff)
    from writeByte_done(2) [OF this] c show "sent (sendStatus s) = sent s @ [(DTAS, stat (cfg s))]"
      by (simp only: sendStatus_sent)
  qed
  have 3: "\<not> bit (stat (cfg (sendStatus s))) 6"
    by (simp only: sendStatus_props(2) stat_bit6_clear not_False_eq_True)
  have 5: "1 < rtmo (cfg s) \<and> wr_in s = wr_ok # rest
      \<longrightarrow> sent (sendStatus s) = sent s @ [(DTAS, stat (cfg s))]"
  proof
    assume a: "1 < rtmo (cfg s) \<and> wr_in s = wr_ok # rest"
    with c have "wr_in ?s1 = wr_ok # rest" "1 < rtmo (cfg ?s1)" by simp_all
    from writeByte_wr_ok [OF this] have "fst ?w = 0" by simp
    with 2 show "sent (sendStatus s) = sent s @ [(DTAS, stat (cfg s))]" by blast
  qed
  have 6: "wr_in s = [] \<longrightarrow> sent (sendStatus s) = sent s"
  proof
    assume "wr_in s = []"
    with c have "wr_in ?s1 = []" by simp
    from writeByte_nobody [OF this] c(2) show "sent (sendStatus s) = sent s"
      by (simp only: sendStatus_sent snd_conv)
  qed
  show ?thesis
    unfolding drives_low_def
    using 1 2 3 5 6 sendStatus_props(1,2,3,4) [of s] device_spe_h_sendStatus [of s] by blast
qed

theorem sendStatus_sequence_witness:
  "sent (sendStatus (engine (defaultCfg\<lparr>cmode := 1, stat := 0x41\<rparr>) [wr_ok] []))
       = [(DTAS, 0x41)]
   \<and> stat (cfg (sendStatus (engine (defaultCfg\<lparr>cmode := 1, stat := 0x41\<rparr>) [wr_ok] []))) = 1
   \<and> sent (device_spe_h (engine (defaultCfg\<lparr>cmode := 1, stat := 0x41\<rparr>) [wr_ok] []))
       = [(DTAS, 0x41)]
   \<and> sent (device_spe_h (engine (defaultCfg\<lparr>cmode := 1, stat := 0x41\<rparr>) [] [])) = []"
proof -
  let ?E = "engine (defaultCfg\<lparr>cmode := 1, stat := 0x41\<rparr>) [wr_ok] []"
  let ?F = "engine (defaultCfg\<lparr>cmode := 1, stat := 0x41\<rparr>) [] []"
  have "1 < rtmo (cfg ?E)" "wr_in ?E = wr_ok # []" "stat (cfg ?E) = 0x41" "sent ?E = []"
    "wr_in ?F = []" "sent ?F = []"
    by (simp_all add: engine_def defaultCfg_def sent_def)
  then show ?thesis
    using sendStatus_sequence [of ?E "[]"] sendStatus_sequence [of ?F "[]"] by simp
qed

text \<open>
  Claim C7 without the condition on the handshake fails: with no listener on the bus
  the status byte \<open>0x41\<close> is not written, and still bit 6 is cleared, SRQ released and
  the state DIDS.
\<close>

theorem sendStatus_counterexample:
  "sent (sendStatus (engine (defaultCfg\<lparr>cmode := 1, stat := 0x41\<rparr>) [] [])) = []
   \<and> stat (cfg (sendStatus (engine (defaultCfg\<lparr>cmode := 1, stat := 0x41\<rparr>) [] []))) = 0x01
   \<and> cstate (sendStatus (engine (defaultCfg\<lparr>cmode := 1, stat := 0x41\<rparr>) [] [])) = DIDS
   \<and> \<not> drives_low (sendStatus (engine (defaultCfg\<lparr>cmode := 1, stat := 0x41\<rparr>) [] [])) 6"
proof -
  let ?E = "engine (defaultCfg\<lparr>cmode := 1, stat := 0x41\<rparr>) [] []"
  let ?s1 = "if cstate ?E = DTAS then ?E else setControls DTAS ?E"
  have "wr_in ?s1 = []" "sent ?s1 = []"
    by (simp_all add: engine_def sent_def setControls_frame)
  with writeByte_nobody [of ?s1 "stat (cfg ?E)" NO_EOI]
  have "sent (sendStatus ?E) = []"
    by (simp only: sendStatus_sent snd_conv)
  moreover have "stat (cfg ?E) = 0x41" by (simp add: engine_def)
  ultimately show ?thesis
    using sendStatus_props [of ?E] by (simp add: drives_low_def)
qed


section \<open>The read handshake; termination of the receive loop\<close>

lemma readByte_pass_abort:
  "rd_abort s a p \<Longrightarrow>
     \<exists>st. (st = 1 \<or> st = 2) \<and> readByte_pass p a rwe stage dbe s = (True, st, dbe, s)"
  by (auto simp add: readByte_pass_def rd_abort_def)

lemma readByte_pass_4:
  "\<not> rd_abort s a p \<Longrightarrow> readByte_pass p a rwe 4 dbe s =
     (if p_dav p = LOW
      then (False, 8, (p_dio p, (rwe \<and> p_eoi p = LOW) \<or> snd dbe), rd_take p rwe (snd dbe) (rd_ready s))
      else (False, 6, dbe, rd_ready s))"
  by (cases "p_dav p"; cases "p_eoi p")
     (auto simp add: readByte_pass_def rd_abort_def Let_def rd_take_def rd_ready_def)

lemma readByte_pass_6:
  "\<not> rd_abort s a p \<Longrightarrow> readByte_pass p a rwe 6 dbe s =
     (if p_dav p = LOW
      then (False, 8, (p_dio p, (rwe \<and> p_eoi p = LOW) \<or> snd dbe), rd_take p rwe (snd dbe) s)
      else (False, 6, dbe, s))"
  by (cases "p_dav p"; cases "p_eoi p")
     (auto simp add: readByte_pass_def rd_abort_def Let_def rd_take_def rd_ready_def)

lemma readByte_pass_8:
  "\<not> rd_abort s a p \<Longrightarrow> readByte_pass p a rwe 8 dbe s =
     (if p_dav p = HIGH then (True, 9, dbe, rd_done s) else (False, 8, dbe, s))"
  by (cases "p_dav p"; cases "p_eoi p")
     (auto simp add: readByte_pass_def rd_abort_def Let_def rd_take_def rd_done_def)

lemma rd_frame [simp]:
  "cfg (rd_ready s) = cfg s" "cfg (rd_take p rwe e s) = cfg s" "cfg (rd_done s) = cfg s"
  "cstate (rd_ready s) = cstate s" "cstate (rd_take p rwe e s) = cstate s"
  "cstate (rd_done s) = cstate s"
  "deviceAddressed (rd_ready s) = deviceAddressed s"
  "deviceAddressed (rd_take p rwe e s) = deviceAddressed s"
  "deviceAddressed (rd_done s) = deviceAddressed s"
  "txBreak (rd_ready s) = txBreak s" "txBreak (rd_take p rwe e s) = txBreak s"
  "txBreak (rd_done s) = txBreak s"
  "atn_in (rd_ready s) = atn_in s" "atn_in (rd_take p rwe e s) = atn_in s"
  "atn_in (rd_done s) = atn_in s"
  "wr_in (rd_ready s) = wr_in s" "wr_in (rd_take p rwe e s) = wr_in s"
  "wr_in (rd_done s) = wr_in s"
  "rd_in (rd_ready s) = rd_in s" "rd_in (rd_take p rwe e s) = rd_in s"
  "rd_in (rd_done s) = rd_in s"
  "host_out (rd_ready s) = host_out s" "host_out (rd_take p rwe e s) = host_out s"
  "host_out (rd_done s) = host_out s"
  "sent (rd_ready s) = sent s" "sent (rd_take p rwe e s) = sent s" "sent (rd_done s) = sent s"
  "wire (rd_ready s) = wire s" "wire (rd_done s) = wire s"
  "wire (rd_take p rwe e s) = wire s @ [Rd (cstate s) (p_dio p) ((rwe \<and> p_eoi p = LOW) \<or> e)]"
  by (simp_all add: rd_ready_def rd_take_def rd_done_def Let_def sent_def)

lemma rd_abort_frame [simp]:
  "rd_abort (rd_ready s) a p = rd_abort s a p"
  "rd_abort (rd_take q rwe e s) a p = rd_abort s a p"
  by (simp_all add: rd_abort_def)

lemma readByte_loop_abort:
  assumes "rd_abort s a p" and "readByte_loop (p # ps) a rwe stage dbe s = (r, dbe', s')"
  shows "(r = 1 \<or> r = 2) \<and> dbe' = dbe \<and> s' = s \<and> cmode (cfg s) = 1"
proof -
  from readByte_pass_abort [OF assms(1), of rwe stage dbe] obtain st
    where "st = 1 \<or> st = 2" and "readByte_pass p a rwe stage dbe s = (True, st, dbe, s)"
    by blast
  with assms show ?thesis by (simp add: rd_abort_def)
qed

lemma readByte_loop_late:
  "readByte_loop ps a rwe 8 dbe s = (r, dbe', s') \<Longrightarrow>
     dbe' = dbe \<and> ((r = 8 \<and> s' = s) \<or> (r = 9 \<and> s' = rd_done s)
                   \<or> ((r = 1 \<or> r = 2) \<and> cmode (cfg s) = 1 \<and> s' = s))"
proof (induction ps)
  case Nil
  then show ?case by auto
next
  case (Cons p ps)
  show ?case
  proof (cases "rd_abort s a p")
    case True
    from readByte_loop_abort [OF True Cons.prems] show ?thesis by simp
  next
    case False
    show ?thesis
    proof (cases "p_dav p = HIGH")
      case True
      with False Cons.prems show ?thesis by (simp add: readByte_pass_8)
    next
      case dav: False
      with False Cons.prems have "readByte_loop ps a rwe 8 dbe s = (r, dbe', s')"
        by (simp add: readByte_pass_8)
      from Cons.IH [OF this] show ?thesis .
    qed
  qed
qed

lemma readByte_loop_6:
  "readByte_loop ps a rwe 6 dbe s = (r, dbe', s') \<Longrightarrow>
     (dbe' = dbe \<and> s' = s \<and> (r = 6 \<or> ((r = 1 \<or> r = 2) \<and> cmode (cfg s) = 1)))
     \<or> (\<exists>p \<in> set ps. p_dav p = LOW \<and> dbe' = (p_dio p, (rwe \<and> p_eoi p = LOW) \<or> snd dbe)
           \<and> ((r = 8 \<and> s' = rd_take p rwe (snd dbe) s)
               \<or> (r = 9 \<and> s' = rd_done (rd_take p rwe (snd dbe) s))
               \<or> ((r = 1 \<or> r = 2) \<and> cmode (cfg s) = 1 \<and> s' = rd_take p rwe (snd dbe) s)))"
proof (induction ps)
  case Nil
  then show ?case by auto
next
  case (Cons p ps)
  show ?case
  proof (cases "rd_abort s a p")
    case True
    from readByte_loop_abort [OF True Cons.prems] show ?thesis by simp
  next
    case False
    show ?thesis
    proof (cases "p_dav p = LOW")
      case True
      with False Cons.prems have
        "readByte_loop ps a rwe 8 (p_dio p, (rwe \<and> p_eoi p = LOW) \<or> snd dbe)
           (rd_take p rwe (snd dbe) s) = (r, dbe', s')"
        by (simp add: readByte_pass_6)
      from readByte_loop_late [OF this] True show ?thesis
        by (intro disjI2 bexI [of _ p]) auto
    next
      case dav: False
      with False Cons.prems have "readByte_loop ps a rwe 6 dbe s = (r, dbe', s')"
        by (simp add: readByte_pass_6)
      from Cons.IH [OF this] show ?thesis
      proof (elim disjE bexE)
        assume "dbe' = dbe \<and> s' = s \<and> (r = 6 \<or> (r = 1 \<or> r = 2) \<and> cmode (cfg s) = 1)"
        then show ?thesis by simp
      next
        fix q assume "q \<in> set ps" and "p_dav q = LOW \<and>
          dbe' = (p_dio q, rwe \<and> p_eoi q = LOW \<or> snd dbe) \<and>
          (r = 8 \<and> s' = rd_take q rwe (snd dbe) s \<or>
           r = 9 \<and> s' = rd_done (rd_take q rwe (snd dbe) s) \<or>
           (r = 1 \<or> r = 2) \<and> cmode (cfg s) = 1 \<and> s' = rd_take q rwe (snd dbe) s)"
        then show ?thesis by (intro disjI2 bexI [of _ q]) simp_all
      qed
    qed
  qed
qed

lemma readByte_loop_4:
  assumes run: "readByte_loop ps a rwe 4 dbe s = (r, dbe', s')"
  shows "(dbe' = dbe \<and> ((r = 4 \<and> s' = s) \<or> (r = 6 \<and> s' = rd_ready s)
                   \<or> ((r = 1 \<or> r = 2) \<and> cmode (cfg s) = 1 \<and> (s' = s \<or> s' = rd_ready s))))
     \<or> (\<exists>p \<in> set ps. p_dav p = LOW \<and> dbe' = (p_dio p, (rwe \<and> p_eoi p = LOW) \<or> snd dbe)
           \<and> ((r = 8 \<and> s' = rd_take p rwe (snd dbe) (rd_ready s))
               \<or> (r = 9 \<and> s' = rd_done (rd_take p rwe (snd dbe) (rd_ready s)))
               \<or> ((r = 1 \<or> r = 2) \<and> cmode (cfg s) = 1
                   \<and> s' = rd_take p rwe (snd dbe) (rd_ready s))))"
proof (cases ps)
  case Nil
  with run show ?thesis by auto
next
  case (Cons p ps')
  show ?thesis
  proof (cases "rd_abort s a p")
    case True
    from readByte_loop_abort [OF True run [unfolded Cons]] show ?thesis by simp
  next
    case False
    show ?thesis
    proof (cases "p_dav p = LOW")
      case True
      with False run Cons have
        "readByte_loop ps' a rwe 8 (p_dio p, (rwe \<and> p_eoi p = LOW) \<or> snd dbe)
           (rd_take p rwe (snd dbe) (rd_ready s)) = (r, dbe', s')"
        by (simp add: readByte_pass_4)
      from readByte_loop_late [OF this] True Cons show ?thesis
        by (intro disjI2 bexI [of _ p]) auto
    next
      case dav: False
      with False run Cons have "readByte_loop ps' a rwe 6 dbe (rd_ready s) = (r, dbe', s')"
        by (simp add: readByte_pass_4)
      from readByte_loop_6 [OF this] show ?thesis
      proof (elim disjE bexE)
        assume "dbe' = dbe \<and> s' = rd_ready s
          \<and> (r = 6 \<or> (r = 1 \<or> r = 2) \<and> cmode (cfg (rd_ready s)) = 1)"
        then show ?thesis by auto
      next
        fix q assume "q \<in> set ps'" and "p_dav q = LOW \<and>
          dbe' = (p_dio q, rwe \<and> p_eoi q = LOW \<or> snd dbe) \<and>
          (r = 8 \<and> s' = rd_take q rwe (snd dbe) (rd_ready s) \<or>
           r = 9 \<and> s' = rd_done (rd_take q rwe (snd dbe) (rd_ready s)) \<or>
           (r = 1 \<or> r = 2) \<and> cmode (cfg (rd_ready s)) = 1
             \<and> s' = rd_take q rwe (snd dbe) (rd_ready s))"
        then show ?thesis using Cons by (intro disjI2 bexI [of _ q]) simp_all
      qed
    qed
  qed
qed


lemma isAssertedATN_frame [simp]:
  "cfg (snd (isAssertedATN s)) = cfg s"
  "cstate (snd (isAssertedATN s)) = cstate s"
  "deviceAddressed (snd (isAssertedATN s)) = deviceAddressed s"
  "txBreak (snd (isAssertedATN s)) = txBreak s"
  "ctrl_dir (snd (isAssertedATN s)) = ctrl_dir s"
  "ctrl_lvl (snd (isAssertedATN s)) = ctrl_lvl s"
  "dbus (snd (isAssertedATN s)) = dbus s"
  "wire (snd (isAssertedATN s)) = wire s"
  "atn_in (snd (isAssertedATN s)) = tl (atn_in s)"
  "wr_in (snd (isAssertedATN s)) = wr_in s"
  "rd_in (snd (isAssertedATN s)) = rd_in s"
  "host_out (snd (isAssertedATN s)) = host_out s"
  "sent (snd (isAssertedATN s)) = sent s"
  by (simp_all add: isAssertedATN_def sent_def split: list.splits)

lemma next_rd_frame [simp]:
  "cfg (snd (next_rd s)) = cfg s"
  "cstate (snd (next_rd s)) = cstate s"
  "deviceAddressed (snd (next_rd s)) = deviceAddressed s"
  "txBreak (snd (next_rd s)) = txBreak s"
  "ctrl_dir (snd (next_rd s)) = ctrl_dir s"
  "ctrl_lvl (snd (next_rd s)) = ctrl_lvl s"
  "dbus (snd (next_rd s)) = dbus s"
  "wire (snd (next_rd s)) = wire s"
  "atn_in (snd (next_rd s)) = atn_in s"
  "wr_in (snd (next_rd s)) = wr_in s"
  "rd_in (snd (next_rd s)) = tl (rd_in s)"
  "host_out (snd (next_rd s)) = host_out s"
  "sent (snd (next_rd s)) = sent s"
  by (simp_all add: next_rd_def sent_def split: list.splits)

lemma readByte_frame:
  assumes "readByte db rwe s = (r, db', e, s')"
  shows "cfg s' = cfg s" and "cstate s' = cstate s" and "deviceAddressed s' = deviceAddressed s"
    and "txBreak s' = txBreak s" and "wr_in s' = wr_in s" and "host_out s' = host_out s"
    and "sent s' = sent s" and "rd_in s' = tl (rd_in s)" and "atn_in s' = tl (atn_in s)"
proof -
  let ?s1 = "snd (next_rd (snd (isAssertedATN s)))"
  have "cfg s' = cfg s \<and> cstate s' = cstate s \<and> deviceAddressed s' = deviceAddressed s
    \<and> txBreak s' = txBreak s \<and> wr_in s' = wr_in s \<and> host_out s' = host_out s
    \<and> sent s' = sent s \<and> rd_in s' = tl (rd_in s) \<and> atn_in s' = tl (atn_in s)"
  proof (cases "1 < rtmo (cfg s)")
    case False
    with assms show ?thesis
      by (auto simp add: readByte_def Let_def split_def)
  next
    case True
    obtain st dbe1 s2 where loop:
      "readByte_loop (fst (next_rd (snd (isAssertedATN s)))) (fst (isAssertedATN s)) rwe 4
         (db, False) ?s1 = (st, dbe1, s2)"
      using prod_cases3 by blast
    with assms True have "s' = s2"
      by (auto simp add: readByte_def Let_def split_def)
    with readByte_loop_4 [OF loop] show ?thesis by auto
  qed
  then show "cfg s' = cfg s" and "cstate s' = cstate s"
    and "deviceAddressed s' = deviceAddressed s"
    and "txBreak s' = txBreak s" and "wr_in s' = wr_in s" and "host_out s' = host_out s"
    and "sent s' = sent s" and "rd_in s' = tl (rd_in s)" and "atn_in s' = tl (atn_in s)"
    by simp_all
qed

lemma readByte_0_rd_in:
  assumes "readByte db rwe s = (0, db', e, s')"
  shows "rd_in s \<noteq> []"
proof
  assume empty: "rd_in s = []"
  let ?s1 = "snd (next_rd (snd (isAssertedATN s)))"
  have ps: "fst (next_rd (snd (isAssertedATN s))) = [silent]"
    using empty by (simp add: next_rd_def)
  show False
  proof (cases "1 < rtmo (cfg s)")
    case False
    with assms show ?thesis
      by (auto simp add: readByte_def Let_def split_def)
  next
    case True
    obtain st dbe1 s2 where loop:
      "readByte_loop [silent] (fst (isAssertedATN s)) rwe 4 (db, False) ?s1 = (st, dbe1, s2)"
      using prod_cases3 by blast
    with assms True ps have "st = 9 \<or> st = 0"
      by (auto simp add: readByte_def Let_def split_def simp del: readByte_loop.simps
          split: if_splits)
    with readByte_loop_4 [OF loop] show False
      by (auto simp add: silent_def)
  qed
qed

lemma receive_pass_continues:
  assumes "receive_pass rwe deb eb er bytes e s = (True, r, bytes', e', s')"
  shows "length (rd_in s') < length (rd_in s)"
proof -
  let ?s1 = "snd (isAssertedATN s)"
  let ?rb = "readByte (fst bytes) rwe ?s1"
  obtain r0 b0 e0 s2 where rb: "?rb = (r0, b0, e0, s2)"
    using prod_cases4 by blast
  from assms have go: "\<not> txBreak s" "\<not> fst (isAssertedATN s)"
    by (auto simp add: receive_pass_def Let_def split_def split: if_splits)
  with assms rb have "r0 = 0" and s': "s' = print [b0] (snd (isAssertedATN s2))"
    by (auto simp add: receive_pass_def Let_def split_def split: if_splits)
  with rb have "readByte (fst bytes) rwe ?s1 = (0, b0, e0, s2)" by simp
  from readByte_0_rd_in [OF this] readByte_frame(8) [OF this] s'
  show ?thesis by (cases "rd_in s") (simp_all add: print_def)
qed

termination receive_loop
  by (relation "measure (\<lambda>(rwe, deb, eb, er, bytes, e, s). length (rd_in s))")
     (auto dest: receive_pass_continues [OF sym])

declare receive_loop.simps [simp del]


section \<open>The command burst of the attention service\<close>

lemma isAssertedATN_True: "fst (isAssertedATN s) \<Longrightarrow> atn_in s \<noteq> []"
  by (auto simp add: isAssertedATN_def split: list.splits)

lemma attn_pass_continues:
  assumes "attn_pass cb bc us db s = Inr (True, cb', bc', us', db', s')"
  shows "length (atn_in s') < length (atn_in s)"
proof -
  let ?s1 = "snd (isAssertedATN s)"
  obtain r b e s2 where rb: "readByte db False ?s1 = (r, b, e, s2)"
    using prod_cases4 by blast
  from assms have a: "fst (isAssertedATN s)"
    by (auto simp add: attn_pass_def Let_def split_def split: if_splits)
  with assms rb have "s' = s2"
    by (auto simp add: attn_pass_def Let_def split_def split: if_splits)
  with readByte_frame(9) [OF rb] isAssertedATN_True [OF a] show ?thesis
    by (cases "atn_in s") simp_all
qed

termination attn_loop
  by (relation "measure (\<lambda>(cb, bc, us, db, s). length (atn_in s))")
     (auto dest: attn_pass_continues)

declare attn_loop.simps [simp del]

lemma readByte_rd_byte:
  assumes "rd_in s = rd_byte atn e b # rest" and "1 < rtmo (cfg s)"
    and "\<not> (cmode (cfg s) = 1 \<and> fst (isAssertedATN s) \<and> atn \<noteq> LOW)"
  shows "readByte db rwe s =
     (0, b, rwe \<and> e = LOW,
      rd_done (rd_take (silent\<lparr>p_atn := atn, p_eoi := e, p_dav := LOW, p_dio := b\<rparr>) rwe False
        (rd_ready (snd (next_rd (snd (isAssertedATN s)))))))"
proof -
  let ?s0 = "snd (isAssertedATN s)"
  let ?a = "fst (isAssertedATN s)"
  let ?s1 = "snd (next_rd ?s0)"
  let ?p1 = "silent\<lparr>p_atn := atn, p_eoi := e, p_dav := LOW, p_dio := b\<rparr>"
  let ?p2 = "silent\<lparr>p_atn := atn\<rparr>"
  have n: "fst (next_rd ?s0) = [?p1, ?p2]"
    using assms(1) by (simp add: next_rd_def rd_byte_def)
  have na: "\<And>t. cfg t = cfg s \<Longrightarrow> \<not> rd_abort t ?a ?p1" "\<And>t. cfg t = cfg s \<Longrightarrow> \<not> rd_abort t ?a ?p2"
    using assms(3) by (auto simp add: rd_abort_def silent_def)
  have "readByte_loop [?p1, ?p2] ?a rwe 4 (db, False) ?s1
      = (9, (b, rwe \<and> e = LOW), rd_done (rd_take ?p1 rwe False (rd_ready ?s1)))"
    by (simp add: readByte_pass_4 [OF na(1)] readByte_pass_8 [OF na(2)]) (simp add: silent_def)
  then show ?thesis
    using assms(2) n by (simp add: readByte_def Let_def split_def)
qed


lemma engine_fields [simp]:
  "cstate (engine c ws rs) = NOSTATE" "rd_in (engine c ws rs) = rs"
  "atn_in (engine c ws rs) = []" "wire (engine c ws rs) = []"
  "host_out (engine c ws rs) = []" "txBreak (engine c ws rs) = False"
  "deviceAddressed (engine c ws rs) = False"
  by (simp_all add: engine_def)

lemma attn_pass_stores:
  assumes "rd_in s = rd_byte LOW HIGH b # rest" and "atn_in s = LOW # LOW # arest"
    and "1 < rtmo (cfg s)" and "b \<noteq> 0x3F" and "b \<noteq> 0x5F" and "bc < cmdbuflen"
  shows "\<exists>s'. rd_in s' = rest \<and> atn_in s' = arest \<and> cfg s' = cfg s
     \<and> attn_pass cb bc us db s =
         (if unat bc < length cb then Inr (True, cb[unat bc := b], bc + 1, us, b, s')
          else Inl (OutOfBounds (unat bc)))"
proof -
  let ?s1 = "snd (isAssertedATN s)"
  have a: "fst (isAssertedATN s)" "atn_in ?s1 = LOW # arest" "rd_in ?s1 = rd_byte LOW HIGH b # rest"
    "1 < rtmo (cfg ?s1)"
    using assms by (simp_all add: isAssertedATN_def)
  have rb: "readByte db False ?s1 = (0, b, False,
      rd_done (rd_take (silent\<lparr>p_atn := LOW, p_eoi := HIGH, p_dav := LOW, p_dio := b\<rparr>) False False
        (rd_ready (snd (next_rd (snd (isAssertedATN ?s1)))))))"
    (is "_ = (0, b, False, ?s2)")
    using readByte_rd_byte [OF a(3) a(4), of db False] by simp
  have "rd_in ?s2 = rest" "atn_in ?s2 = arest" "cfg ?s2 = cfg s"
    using a by simp_all
  moreover have "attn_pass cb bc us db s =
         (if unat bc < length cb then Inr (True, cb[unat bc := b], bc + 1, us, b, ?s2)
          else Inl (OutOfBounds (unat bc)))"
    using a(1) assms(4,5,6) rb by (simp add: attn_pass_def Let_def split_def)
  ultimately show ?thesis by blast
qed


lemma attn_loop_burst:
  assumes "rd_in s = map (rd_byte LOW HIGH) bs @ rrest"
    and "atn_in s = replicate (2 * length bs) LOW @ arest"
    and "1 < rtmo (cfg s)" and "\<forall>b \<in> set bs. b \<noteq> 0x3F \<and> b \<noteq> 0x5F"
    and "length cb = 5" and "unat bc \<le> 5" and "5 < unat bc + length bs"
  shows "attn_loop cb bc us db s = Inl (OutOfBounds 5)"
  using assms
proof (induction bs arbitrary: cb bc db s)
  case Nil
  then show ?case by simp
next
  case (Cons b bs)
  have lt: "bc < cmdbuflen"
    using Cons.prems(6) by (simp add: cmdbuflen_def word_less_nat_alt)
  from Cons.prems have
    "rd_in s = rd_byte LOW HIGH b # (map (rd_byte LOW HIGH) bs @ rrest)"
    "atn_in s = LOW # LOW # (replicate (2 * length bs) LOW @ arest)"
    "b \<noteq> 0x3F" "b \<noteq> 0x5F"
    by simp_all
  from attn_pass_stores [OF this(1) this(2) Cons.prems(3) this(3) this(4) lt, of cb us db]
  obtain s' where s': "rd_in s' = map (rd_byte LOW HIGH) bs @ rrest"
    "atn_in s' = replicate (2 * length bs) LOW @ arest" "cfg s' = cfg s"
    and pass: "attn_pass cb bc us db s =
         (if unat bc < length cb then Inr (True, cb[unat bc := b], bc + 1, us, b, s')
          else Inl (OutOfBounds (unat bc)))"
    by blast
  show ?case
  proof (cases "unat bc < 5")
    case False
    with Cons.prems(6) have "unat bc = 5" by simp
    with pass Cons.prems(5) show ?thesis
      by (subst attn_loop.simps) simp
  next
    case True
    then have u: "unat (bc + 1) = unat bc + 1"
      by (simp add: unat_word_ariths)
    have "attn_loop (cb[unat bc := b]) (bc + 1) us b s' = Inl (OutOfBounds 5)"
      using Cons.prems True u s'
      by (intro Cons.IH) simp_all
    with pass True Cons.prems(5) show ?thesis
      by (subst attn_loop.simps) simp
  qed
qed

text \<open>
  Claim C10 fails on the code.  A device-role node that reads six command bytes other
  than UNL and UNT while ATN is asserted (here LAD+1 to LAD+6) stores the sixth at index
  5 of the five-byte array \<^verbatim>\<open>cmdbytes\<close>: the loop is bounded by \<^verbatim>\<open>cmdbuflen = 35\<close>, not by
  the size of the array.
\<close>

theorem attn_read_six_bytes:
  "attn_read ((engine (defaultCfg\<lparr>cmode := 1\<rparr>) []
       (map (rd_byte LOW HIGH) [0x21, 0x22, 0x23, 0x24, 0x25, 0x26]))
         \<lparr>atn_in := replicate 12 LOW\<rparr>)
   = Inl (OutOfBounds 5)"
  unfolding attn_read_def
  by (rule attn_loop_burst [where bs = "[0x21, 0x22, 0x23, 0x24, 0x25, 0x26]"
        and rrest = "[]" and arest = "[]"])
     (simp_all add: defaultCfg_def)

section \<open>The role state after a bus operation\<close>

lemma print_frame [simp]:
  "cfg (print bs s) = cfg s" "cstate (print bs s) = cstate s"
  "deviceAddressed (print bs s) = deviceAddressed s" "txBreak (print bs s) = txBreak s"
  "wire (print bs s) = wire s" "atn_in (print bs s) = atn_in s" "wr_in (print bs s) = wr_in s"
  "rd_in (print bs s) = rd_in s" "host_out (print bs s) = host_out s @ bs"
  "sent (print bs s) = sent s"
  by (simp_all add: print_def sent_def)







lemma ctl_distinct [simp]:
  "CR \<noteq> LF" "LF \<noteq> CR" "CR \<noteq> ESC" "ESC \<noteq> CR" "LF \<noteq> ESC" "ESC \<noteq> LF"
  "PLUS \<noteq> CR" "PLUS \<noteq> LF" "PLUS \<noteq> ESC" "CR \<noteq> PLUS" "LF \<noteq> PLUS" "ESC \<noteq> PLUS"
  by (simp_all add: CR_def LF_def ESC_def PLUS_def)



lemma eoi_pulse_cfg [simp]: "cfg (eoi_pulse s) = cfg s"
  by (simp add: eoi_pulse_def Let_def)



lemma accepting_frame:
  "cfg s' = cfg s \<Longrightarrow> wr_in s' = wr_in s \<Longrightarrow> accepting n s' = accepting n s"
  by (simp add: accepting_def)









lemma dp_frame [simp]:
  "gpibBus (dp_print bs k) = print bs (gpibBus k)"
  "gpibBus (dp_println bs k) = print (bs @ [CR, LF]) (gpibBus k)"
  "isVerbose (dp_print bs k) = isVerbose k" "isVerbose (dp_println bs k) = isVerbose k"
  by (simp_all add: dp_print_def dp_println_def)

lemma verbose_frame [simp]:
  "cfg (gpibBus (verbose bs k)) = cfg (gpibBus k)"
  "cstate (gpibBus (verbose bs k)) = cstate (gpibBus k)"
  "wr_in (gpibBus (verbose bs k)) = wr_in (gpibBus k)"
  "rd_in (gpibBus (verbose bs k)) = rd_in (gpibBus k)"
  "wire (gpibBus (verbose bs k)) = wire (gpibBus k)"
  "sent (gpibBus (verbose bs k)) = sent (gpibBus k)"
  "isVerbose (verbose bs k) = isVerbose k"
  by (simp_all add: verbose_def)



















end
